theory Spec2Isabelle
  imports Main
begin

section \<open>threadverse: running a function in a worker, with delay, timeout, abort and retries\<close>

text \<open>
  The repository has two variants of the same two functions, \<^verbatim>\<open>createWorker\<close> and
  \<^verbatim>\<open>createPool\<close>: \<^verbatim>\<open>src/node/index.ts\<close> (worker threads of Node) and
  \<^verbatim>\<open>src/lib/web/index.ts\<close> (Web Workers of a browser). Both are event driven: the
  functions register listeners and timers, and everything else happens when the platform
  calls a listener. The embedding therefore has two layers.

  \<^item> The program. Every variable the source mutates is a field of a state record; every
    listener, timer callback and helper of the source is a function on that state, with
    the source's name and the source's branches. The script that runs inside the worker
    is embedded statement by statement.
  \<^item> The platform, which is not code of the repository. An event is one call of the
    platform into the program: a worker thread came up, a worker finished its
    computation, a timer ran out, the abort signal fired, a worker thread exited. \<open>fire\<close>
    says when an event can happen and which listeners it runs. What the platform is
    assumed to do is written next to each definition.

  Delays and exit codes are modelled as \<open>int\<close> (no NaN, no fractions). The arguments of a
  call are plain data, as the data model of the specification requires, so that posting
  them to the worker cannot fail; they do not appear in the state.
\<close>

subsection \<open>Data\<close>

text \<open>
  A value that a computation throws and that can travel between worker and program: an
  \<^verbatim>\<open>Error\<close> object, known by its message, or any other value, known by its text. Only the
  first passes the test \<^verbatim>\<open>instanceof Error\<close>.
\<close>

datatype thrown = Error string | Value string

text \<open>The promise returned by the pooled function.\<close>

datatype 'v promise = Pending | Resolved 'v | Rejected thrown

text \<open>\<^verbatim>\<open>IResponse\<close> of \<^verbatim>\<open>src/interfaces/index.ts\<close>: the tagged message of the web variant.\<close>

datatype 'v response = Success 'v | Failure thrown

text \<open>\<^verbatim>\<open>IRunnableOption\<close>. \<open>signal = Some b\<close> is a signal whose \<^verbatim>\<open>aborted\<close> flag is \<open>b\<close> when
  the pooled function is called. The logger is modelled by the list \<open>logs\<close> of the state.\<close>

record options =
  signal :: "bool option"
  startTime :: "int option"
  timeout :: "int option"
  retriesWithIn :: "int list option"

text \<open>A timer variable of \<^verbatim>\<open>createWorker\<close>: \<^verbatim>\<open>undefined\<close>, or the handle of a timer that is
  still to run, has run, or was cleared.\<close>

datatype timer = Unset | Armed int | Fired | Cleared

text \<open>
  The life of one worker, as the platform sees it: created and waiting for its arguments,
  computing (or about to, once its thread is up), about to deliver its exit event with a
  code (Node only), gone. \<open>online\<close> says that the thread of the worker has come up.
\<close>

datatype phase = Waiting | Running | Closing int | Exited

record worker =
  phase :: phase
  online :: bool
  startTimer :: timer
  timeoutTimer :: timer
  onceMessage :: bool
  onceError :: bool
  onceExit :: bool

text \<open>
  The variables of one call of the pooled function: the closure of the promise executor
  (\<^verbatim>\<open>retryCount\<close>, \<^verbatim>\<open>errorInstance\<close>, the promise itself), the workers created so far (the
  length of the list is the number of workers spawned), the pending
  \<^verbatim>\<open>setTimeout(tryExecution, retryTimeout)\<close> timers, and the abort signal with the workers
  whose abort listener is registered on it. \<open>errorInstance = None\<close> stands for a variable
  that holds \<^verbatim>\<open>undefined\<close> or \<^verbatim>\<open>null\<close>.
\<close>

record 'v state =
  workers :: "worker list"
  retryCount :: nat
  errorInstance :: "thrown option"
  promise :: "'v promise"
  logs :: "string list"
  retryTimers :: "int list"
  aborted :: bool
  abortListeners :: "nat list"

datatype variant = Node | Web

text \<open>
  What the computation does once it has its arguments: it returns plain data \<open>x\<close>, or
  returns a value that cannot be cloned (a function, a symbol), or throws a value that
  can be cloned, or throws one that cannot.
\<close>

datatype 'v outcome = Returns 'v | ReturnsOpaque | Throws thrown | ThrowsOpaque

text \<open>
  What one attempt does: the computation completes, or never does, or the worker itself
  fails outside the computation (the \<^verbatim>\<open>error\<close> event of a worker whose script does not
  load).
\<close>

datatype 'v behaviour = Completes "'v outcome" | Never | Crashes thrown

text \<open>A value inside the worker: plain data, or something that cannot be cloned.\<close>

datatype 'a js = Plain 'a | Opaque

text \<open>
  What the script running inside the worker does, in order: it posts a message, closes
  its port, or lets a value leave its handler uncaught.
\<close>

datatype 'm action = Post 'm | Close | Uncaught "thrown js"

datatype event =
  Online nat | Finish nat | Crash nat | Exit nat | StartTimer nat | TimeoutTimer nat | Abort |
  RetryTimer nat

subsection \<open>Numbers in template strings\<close>

text \<open>
  The decimal digits of an integer. JavaScript prints an integer number this way as long
  as it has fewer than 22 digits; the delays and exit codes are taken to be such
  integers.
\<close>

fun str_nat :: "nat \<Rightarrow> string" where
  "str_nat n = (if n < 10 then [char_of (48 + n)] else str_nat (n div 10) @ [char_of (48 + n mod 10)])"

declare str_nat.simps [simp del]

definition str_int :: "int \<Rightarrow> string" where
  "str_int i = (if i < 0 then CHR ''-'' # str_nat (nat (- i)) else str_nat (nat i))"

text \<open>\<^verbatim>\<open>if (startTime)\<close>, \<^verbatim>\<open>if (timeout)\<close>: a number is truthy unless it is 0.\<close>

definition truthy :: "int \<Rightarrow> bool" where
  "truthy n = (n \<noteq> 0)"

subsection \<open>The scripts of the workers\<close>

text \<open>
  \<^verbatim>\<open>await f.apply(null, data)\<close>: the value of the expression (\<open>Inr\<close>), or the value
  that it throws (\<open>Inl\<close>).
\<close>

definition apply_runnable :: "'v outcome \<Rightarrow> thrown js + 'v js" where
  "apply_runnable oc =
     (case oc of
        Returns x \<Rightarrow> Inr (Plain x)
      | ReturnsOpaque \<Rightarrow> Inr Opaque
      | Throws v \<Rightarrow> Inl (Plain v)
      | ThrowsOpaque \<Rightarrow> Inl Opaque)"

text \<open>
  \<^verbatim>\<open>postMessage\<close> clones what it sends. On a value that cannot be cloned it throws a
  \<^verbatim>\<open>DataCloneError\<close>, which is an \<^verbatim>\<open>Error\<close> object, and sends nothing.
\<close>

definition DataCloneError :: thrown where
  "DataCloneError = Error ''DataCloneError''"

definition structuredClone :: "'a js \<Rightarrow> thrown js + 'a" where
  "structuredClone v = (case v of Plain x \<Rightarrow> Inr x | Opaque \<Rightarrow> Inl (Plain DataCloneError))"

text \<open>
  Node, lines 71-81:
  \<^verbatim>\<open>parentPort.on("message", async (data) => {
    const result = await f.apply(null, data);
    parentPort.postMessage(result); parentPort.close(); })\<close>
  There is no \<^verbatim>\<open>try\<close>: what the computation or \<^verbatim>\<open>postMessage\<close> throws leaves the handler
  uncaught, and the statements after it do not run.
\<close>

definition node_script :: "'v outcome \<Rightarrow> 'v action list" where
  "node_script oc =
     (case apply_runnable oc of
        Inl reason \<Rightarrow> [Uncaught reason]
      | Inr result \<Rightarrow>
          (case structuredClone result of
             Inl reason \<Rightarrow> [Uncaught reason]
           | Inr m \<Rightarrow> [Post m, Close]))"

text \<open>
  Web, lines 35-50:
  \<^verbatim>\<open>try { const content = await f.apply(null, data);
        parentPort.postMessage({type: "success", content}); }
  catch (error) { parentPort.postMessage({type: "error", error}); }
  finally { parentPort.close(); }\<close>
  \<open>web_try\<close> is the \<^verbatim>\<open>try\<close> block and \<open>web_catch\<close> the \<^verbatim>\<open>catch\<close> block: the messages posted
  (\<open>Inr\<close>) or the value thrown (\<open>Inl\<close>). The \<^verbatim>\<open>finally\<close> block runs in every case; what the
  \<^verbatim>\<open>catch\<close> block throws leaves the handler after it.
\<close>

definition web_try :: "'v outcome \<Rightarrow> thrown js + 'v response action list" where
  "web_try oc =
     (case apply_runnable oc of
        Inl error \<Rightarrow> Inl error
      | Inr content \<Rightarrow>
          (case structuredClone content of
             Inl error \<Rightarrow> Inl error
           | Inr c \<Rightarrow> Inr [Post (Success c)]))"

definition web_catch :: "thrown js \<Rightarrow> thrown js + 'v response action list" where
  "web_catch error =
     (case structuredClone error of
        Inl reason \<Rightarrow> Inl reason
      | Inr e \<Rightarrow> Inr [Post (Failure e)])"

definition web_script :: "'v outcome \<Rightarrow> 'v response action list" where
  "web_script oc =
     (case (case web_try oc of Inr acts \<Rightarrow> Inr acts | Inl error \<Rightarrow> web_catch error) of
        Inr acts \<Rightarrow> acts @ [Close]
      | Inl reason \<Rightarrow> [Close, Uncaught reason])"

text \<open>The messages a script posts, and the values it lets escape.\<close>

fun posted :: "'m action list \<Rightarrow> 'm list" where
  "posted [] = []"
| "posted (Post m # as) = m # posted as"
| "posted (_ # as) = posted as"

fun escaped :: "'m action list \<Rightarrow> thrown js list" where
  "escaped [] = []"
| "escaped (Uncaught v # as) = v # escaped as"
| "escaped (_ # as) = escaped as"

subsection \<open>Platform operations on one worker\<close>

definition alive :: "worker \<Rightarrow> bool" where
  "alive w = (phase w = Waiting \<or> phase w = Running)"

text \<open>
  \<^verbatim>\<open>worker.terminate()\<close>. A worker that has not finished is stopped. In Node its
  \<^verbatim>\<open>exit\<close> event follows; the exit code is 1 when the thread was up, and 0 when the
  thread was still starting. A Web Worker has no exit event: it is gone without a trace.
  On a worker that has finished the call does nothing.
\<close>

definition terminate :: "variant \<Rightarrow> worker \<Rightarrow> worker" where
  "terminate var w =
     (if alive w then
        w\<lparr>phase := (case var of
                      Node \<Rightarrow> Closing (if online w then 1 else 0)
                    | Web \<Rightarrow> Exited)\<rparr>
      else w)"

text \<open>\<^verbatim>\<open>worker.postMessage(params)\<close>: a waiting worker has its arguments and can compute.\<close>

definition postMessage :: "worker \<Rightarrow> worker" where
  "postMessage w = (if phase w = Waiting then w\<lparr>phase := Running\<rparr> else w)"

definition clearTimeout :: "timer \<Rightarrow> timer" where
  "clearTimeout t = (case t of Armed _ \<Rightarrow> Cleared | _ \<Rightarrow> t)"

definition upd :: "nat \<Rightarrow> (worker \<Rightarrow> worker) \<Rightarrow> 'v state \<Rightarrow> 'v state" where
  "upd i f s = s\<lparr>workers := (workers s)[i := f (workers s ! i)]\<rparr>"

subsection \<open>The promise\<close>

text \<open>\<^verbatim>\<open>resolve\<close> and \<^verbatim>\<open>reject\<close> of a JavaScript promise: the first call settles it.\<close>

definition resolve :: "'v \<Rightarrow> 'v state \<Rightarrow> 'v state" where
  "resolve x s = (if promise s = Pending then s\<lparr>promise := Resolved x\<rparr> else s)"

definition reject :: "thrown \<Rightarrow> 'v state \<Rightarrow> 'v state" where
  "reject e s = (if promise s = Pending then s\<lparr>promise := Rejected e\<rparr> else s)"

subsection \<open>createWorker\<close>

text \<open>
  The body of \<^verbatim>\<open>createWorker\<close> after the script (the same in both files): the abort
  listener is registered when a signal is given; \<^verbatim>\<open>startTime\<close> defaults to 0; a truthy
  \<^verbatim>\<open>startTime\<close> arms the start timer, otherwise the arguments are posted at once; a truthy
  \<^verbatim>\<open>timeout\<close> arms the timeout timer. \<open>newWorker\<close> is the worker with its two timer
  variables as the function leaves them; its thread is not up yet. \<open>createWorker\<close> adds
  it to the state, as the last of the list. The three \<open>once\<close> flags say that the
  listeners which the web variant of \<^verbatim>\<open>tryExecution\<close> registers with \<^verbatim>\<open>once: true\<close> have
  not run yet.
\<close>

definition newWorker :: "options \<Rightarrow> worker" where
  "newWorker opts =
     (let w0 = \<lparr>phase = Waiting, online = False, startTimer = Unset, timeoutTimer = Unset,
                onceMessage = True, onceError = True, onceExit = True\<rparr>;
          st = (case startTime opts of None \<Rightarrow> 0 | Some d \<Rightarrow> d);
          w1 = (if truthy st then w0\<lparr>startTimer := Armed st\<rparr> else postMessage w0)
      in case timeout opts of
           None \<Rightarrow> w1
         | Some t \<Rightarrow> if truthy t then w1\<lparr>timeoutTimer := Armed t\<rparr> else w1)"

definition createWorker :: "options \<Rightarrow> 'v state \<Rightarrow> 'v state" where
  "createWorker opts s =
     s\<lparr>workers := workers s @ [newWorker opts],
       abortListeners := (case signal opts of
                            None \<Rightarrow> abortListeners s
                          | Some _ \<Rightarrow> abortListeners s @ [length (workers s)])\<rparr>"

text \<open>The \<^verbatim>\<open>message\<close> listener of \<^verbatim>\<open>createWorker\<close>: both timers are cleared.\<close>

definition on_message_timers :: "worker \<Rightarrow> worker" where
  "on_message_timers w =
     w\<lparr>timeoutTimer := clearTimeout (timeoutTimer w), startTimer := clearTimeout (startTimer w)\<rparr>"

text \<open>The callback of the timeout timer: \<^verbatim>\<open>worker.terminate(); clearTimeout(startTimer)\<close>.\<close>

definition on_timeout :: "variant \<Rightarrow> worker \<Rightarrow> worker" where
  "on_timeout var w = (terminate var w)\<lparr>startTimer := clearTimeout (startTimer w)\<rparr>"

subsection \<open>createPool\<close>

definition tryExecution :: "options \<Rightarrow> 'v state \<Rightarrow> 'v state" where
  "tryExecution opts s = createWorker opts s"

text \<open>\<^verbatim>\<open>options?.retriesWithIn || []\<close>\<close>

definition retries :: "options \<Rightarrow> int list" where
  "retries opts = (case retriesWithIn opts of None \<Rightarrow> [] | Some ds \<Rightarrow> ds)"

text \<open>
  \<^verbatim>\<open>errorInstance instanceof Error ? errorInstance : new Error(...)\<close>: the recorded value
  when it is an \<^verbatim>\<open>Error\<close> object; the generic error when the variable holds any other
  value, \<^verbatim>\<open>undefined\<close> or \<^verbatim>\<open>null\<close>.
\<close>

definition rejection :: "thrown option \<Rightarrow> int \<Rightarrow> thrown" where
  "rejection recorded code =
     (case recorded of
        Some (Error m) \<Rightarrow> Error m
      | _ \<Rightarrow> Error (''Worker stopped with exit code '' @ str_int code))"

definition exitHandler :: "options \<Rightarrow> int \<Rightarrow> 'v state \<Rightarrow> 'v state" where
  "exitHandler opts code s =
     (if code = 0 then s
      else if retryCount s < length (retries opts) then
        (let retryTimeout = retries opts ! retryCount s
         in s\<lparr>retryCount := retryCount s + 1,
              logs := logs s @ [''Retry with in '' @ str_int retryTimeout @ ''ms''],
              retryTimers := retryTimers s @ [retryTimeout]\<rparr>)
      else reject (rejection (errorInstance s) code) s)"

text \<open>The state in which the promise executor has run: \<^verbatim>\<open>tryExecution()\<close> was called once.\<close>

definition invoke :: "options \<Rightarrow> 'v state" where
  "invoke opts =
     tryExecution opts
       \<lparr>workers = [], retryCount = 0, errorInstance = None, promise = Pending, logs = [],
        retryTimers = [], aborted = (signal opts = Some True), abortListeners = []\<rparr>"

subsection \<open>The listeners of the Node variant\<close>

text \<open>
  \<^verbatim>\<open>worker.on("message", ...)\<close> of \<^verbatim>\<open>createWorker\<close>, then \<^verbatim>\<open>worker.on("message", resolve)\<close>;
  \<^verbatim>\<open>worker.on("error", (error) => (errorInstance = error))\<close>;
  \<^verbatim>\<open>worker.on("exit", exitHandler)\<close>.
\<close>

definition node_on_message :: "nat \<Rightarrow> 'v \<Rightarrow> 'v state \<Rightarrow> 'v state" where
  "node_on_message i x s = resolve x (upd i on_message_timers s)"

definition node_on_error :: "thrown \<Rightarrow> 'v state \<Rightarrow> 'v state" where
  "node_on_error e s = s\<lparr>errorInstance := Some e\<rparr>"

definition node_on_exit :: "options \<Rightarrow> int \<Rightarrow> 'v state \<Rightarrow> 'v state" where
  "node_on_exit opts code s = exitHandler opts code s"

text \<open>
  The value that the \<^verbatim>\<open>error\<close> event of a Node worker carries: the uncaught value
  itself; a value that cannot be cloned arrives as its inspection text, a string.
\<close>

definition parent_sees :: "thrown js \<Rightarrow> thrown" where
  "parent_sees v = (case v of Plain t \<Rightarrow> t | Opaque \<Rightarrow> Value ''[inspected]'')"

text \<open>
  What the parent sees of each action of the script: a posted message runs the message
  listeners; \<^verbatim>\<open>parentPort.close()\<close> ends the thread with exit code 0; an uncaught value
  runs the error listener and ends the thread with exit code 1. The exit event itself is
  delivered later (event \<open>Exit\<close>).
\<close>

fun node_emit :: "nat \<Rightarrow> 'v action \<Rightarrow> 'v state \<Rightarrow> 'v state" where
  "node_emit i (Post x) s = node_on_message i x s"
| "node_emit i Close s = upd i (\<lambda>w. w\<lparr>phase := Closing 0\<rparr>) s"
| "node_emit i (Uncaught v) s =
     upd i (\<lambda>w. w\<lparr>phase := Closing 1\<rparr>) (node_on_error (parent_sees v) s)"

subsection \<open>The listeners of the web variant\<close>

text \<open>
  \<^verbatim>\<open>worker.dispatchEvent(new ExitEvent(code))\<close>: the \<^verbatim>\<open>exit\<close> listener is registered with
  \<^verbatim>\<open>once: true\<close> and calls \<^verbatim>\<open>exitHandler(event.detail.code)\<close>.
\<close>

definition dispatchExit :: "options \<Rightarrow> nat \<Rightarrow> int \<Rightarrow> 'v state \<Rightarrow> 'v state" where
  "dispatchExit opts i code s =
     (if onceExit (workers s ! i)
      then exitHandler opts code (upd i (\<lambda>w. w\<lparr>onceExit := False\<rparr>) s)
      else s)"

text \<open>The \<^verbatim>\<open>message\<close> listener of \<^verbatim>\<open>createWorker\<close>, then the one of \<^verbatim>\<open>tryExecution\<close> (once).\<close>

definition web_on_message :: "options \<Rightarrow> nat \<Rightarrow> 'v response \<Rightarrow> 'v state \<Rightarrow> 'v state" where
  "web_on_message opts i d s =
     (let s1 = upd i on_message_timers s in
      if onceMessage (workers s1 ! i) then
        (let s2 = upd i (\<lambda>w. w\<lparr>onceMessage := False\<rparr>) s1 in
         case d of
           Success x \<Rightarrow> dispatchExit opts i 0 (resolve x s2)
         | Failure e \<Rightarrow> dispatchExit opts i 1 (s2\<lparr>errorInstance := Some e\<rparr>))
      else s1)"

text \<open>
  The \<^verbatim>\<open>error\<close> listener of \<^verbatim>\<open>tryExecution\<close> (once):
  \<^verbatim>\<open>errorInstance = errorEvent.error; worker.dispatchEvent(new ExitEvent(1))\<close>. The \<^verbatim>\<open>error\<close>
  property of the error event of a Worker is \<^verbatim>\<open>null\<close> (the event describes the failure
  in its \<^verbatim>\<open>message\<close>), so the variable holds \<^verbatim>\<open>null\<close> afterwards.
\<close>

definition web_on_error :: "options \<Rightarrow> nat \<Rightarrow> 'v state \<Rightarrow> 'v state" where
  "web_on_error opts i s =
     (if onceError (workers s ! i) then
        dispatchExit opts i 1 ((upd i (\<lambda>w. w\<lparr>onceError := False\<rparr>) s)\<lparr>errorInstance := None\<rparr>)
      else s)"

text \<open>
  A posted message runs the message listeners; \<^verbatim>\<open>close()\<close> ends the worker, with no event.
  A value that leaves the \<^verbatim>\<open>async\<close> handler of the worker is an unhandled rejection
  inside the worker: the page is not told.
\<close>

fun web_emit :: "options \<Rightarrow> nat \<Rightarrow> 'v response action \<Rightarrow> 'v state \<Rightarrow> 'v state" where
  "web_emit opts i (Post d) s = web_on_message opts i d s"
| "web_emit opts i Close s = upd i (\<lambda>w. w\<lparr>phase := Exited\<rparr>) s"
| "web_emit opts i (Uncaught v) s = s"

subsection \<open>Events\<close>

definition finish :: "variant \<Rightarrow> options \<Rightarrow> nat \<Rightarrow> 'v outcome \<Rightarrow> 'v state \<Rightarrow> 'v state" where
  "finish var opts i oc s =
     (case var of
        Node \<Rightarrow> fold (node_emit i) (node_script oc) s
      | Web \<Rightarrow> fold (web_emit opts i) (web_script oc) s)"

text \<open>
  The worker fails outside the computation. Node delivers the \<^verbatim>\<open>error\<close> event with the
  error and ends the thread with exit code 1; the browser delivers the \<^verbatim>\<open>error\<close> event
  and the worker is gone.
\<close>

definition crash :: "variant \<Rightarrow> options \<Rightarrow> nat \<Rightarrow> thrown \<Rightarrow> 'v state \<Rightarrow> 'v state" where
  "crash var opts i e s =
     (case var of
        Node \<Rightarrow> upd i (\<lambda>w. w\<lparr>phase := Closing 1\<rparr>) (node_on_error e s)
      | Web \<Rightarrow> upd i (\<lambda>w. w\<lparr>phase := Exited\<rparr>) (web_on_error opts i s))"

text \<open>
  The signal dispatches its \<^verbatim>\<open>abort\<close> event: every listener that \<^verbatim>\<open>createWorker\<close> has
  registered (\<^verbatim>\<open>once: true\<close>) runs \<^verbatim>\<open>worker.terminate()\<close> on its own worker.
\<close>

definition dispatchAbort :: "variant \<Rightarrow> 'v state \<Rightarrow> 'v state" where
  "dispatchAbort var s =
     fold (\<lambda>i. upd i (terminate var)) (abortListeners s) (s\<lparr>aborted := True, abortListeners := []\<rparr>)"

text \<open>
  \<open>fire var beh opts ev s\<close> is the state after the platform has delivered \<open>ev\<close>, or \<open>None\<close>
  when \<open>ev\<close> cannot happen in \<open>s\<close>. \<open>beh i\<close> is what attempt \<open>i\<close> does.
  \<^item> \<open>Online i\<close>: the thread of worker \<open>i\<close>, which has not finished, comes up.
  \<^item> \<open>Finish i\<close>: the computation of worker \<open>i\<close>, whose thread is up and which has its
    arguments, completes, and the script of the worker runs to its end.
  \<^item> \<open>Crash i\<close>: worker \<open>i\<close>, not yet finished, fails outside the computation.
  \<^item> \<open>Exit i\<close>: Node delivers the \<^verbatim>\<open>exit\<close> event of worker \<open>i\<close>.
  \<^item> \<open>StartTimer i\<close>, \<open>TimeoutTimer i\<close>: an armed timer of worker \<open>i\<close> runs out.
  \<^item> \<open>Abort\<close>: the signal, not yet aborted, is aborted: the registered listeners run, each
    once. A signal that is already aborted dispatches no further event.
  \<^item> \<open>RetryTimer k\<close>: the \<open>k\<close>-th pending retry timer runs out and calls
    \<^verbatim>\<open>tryExecution\<close>.
\<close>

fun fire :: "variant \<Rightarrow> (nat \<Rightarrow> 'v behaviour) \<Rightarrow> options \<Rightarrow> event \<Rightarrow> 'v state \<Rightarrow> 'v state option" where
  "fire var beh opts (Online i) s =
     (if i < length (workers s) \<and> alive (workers s ! i) \<and> \<not> online (workers s ! i) then
        Some (upd i (\<lambda>w. w\<lparr>online := True\<rparr>) s)
      else None)"
| "fire var beh opts (Finish i) s =
     (if i < length (workers s) \<and> phase (workers s ! i) = Running \<and> online (workers s ! i) then
        (case beh i of Completes oc \<Rightarrow> Some (finish var opts i oc s) | _ \<Rightarrow> None)
      else None)"
| "fire var beh opts (Crash i) s =
     (if i < length (workers s) \<and> alive (workers s ! i) then
        (case beh i of Crashes e \<Rightarrow> Some (crash var opts i e s) | _ \<Rightarrow> None)
      else None)"
| "fire var beh opts (Exit i) s =
     (if var = Node \<and> i < length (workers s) then
        (case phase (workers s ! i) of
           Closing code \<Rightarrow> Some (node_on_exit opts code (upd i (\<lambda>w. w\<lparr>phase := Exited\<rparr>) s))
         | _ \<Rightarrow> None)
      else None)"
| "fire var beh opts (StartTimer i) s =
     (if i < length (workers s) then
        (case startTimer (workers s ! i) of
           Armed _ \<Rightarrow> Some (upd i (\<lambda>w. postMessage (w\<lparr>startTimer := Fired\<rparr>)) s)
         | _ \<Rightarrow> None)
      else None)"
| "fire var beh opts (TimeoutTimer i) s =
     (if i < length (workers s) then
        (case timeoutTimer (workers s ! i) of
           Armed _ \<Rightarrow> Some (upd i (\<lambda>w. on_timeout var (w\<lparr>timeoutTimer := Fired\<rparr>)) s)
         | _ \<Rightarrow> None)
      else None)"
| "fire var beh opts Abort s =
     (if signal opts \<noteq> None \<and> \<not> aborted s then
        Some (dispatchAbort var s)
      else None)"
| "fire var beh opts (RetryTimer k) s =
     (if k < length (retryTimers s) then
        Some (tryExecution opts
                (s\<lparr>retryTimers := take k (retryTimers s) @ drop (Suc k) (retryTimers s)\<rparr>))
      else None)"

text \<open>A run: the events of a list, delivered in order from a state.\<close>

fun run :: "variant \<Rightarrow> (nat \<Rightarrow> 'v behaviour) \<Rightarrow> options \<Rightarrow> event list \<Rightarrow> 'v state \<Rightarrow> 'v state option" where
  "run var beh opts [] s = Some s"
| "run var beh opts (ev # evs) s =
     (case fire var beh opts ev s of None \<Rightarrow> None | Some s' \<Rightarrow> run var beh opts evs s')"

subsection \<open>Scenarios\<close>

text \<open>The pooled function built without options, or with \<^verbatim>\<open>{}\<close>.\<close>

definition no_options :: options where
  "no_options = \<lparr>signal = None, startTime = None, timeout = None, retriesWithIn = None\<rparr>"

text \<open>A timer that is still to run.\<close>

definition armed :: "timer \<Rightarrow> bool" where
  "armed t = (case t of Armed _ \<Rightarrow> True | _ \<Rightarrow> False)"

text \<open>The script of the worker posts a message when the computation ends with \<open>oc\<close>.\<close>

definition posts :: "variant \<Rightarrow> 'v outcome \<Rightarrow> bool" where
  "posts var oc =
     (case var of
        Node \<Rightarrow> posted (node_script oc) \<noteq> []
      | Web \<Rightarrow> posted (web_script oc) \<noteq> [])"

text \<open>
  The events that name a worker or a retry timer of the state, and the abort event: no
  other event can be delivered. In an idle state none of them can: nothing can happen
  any more.
\<close>

definition candidates :: "'v state \<Rightarrow> event list" where
  "candidates s =
     concat (map (\<lambda>i. [Online i, Finish i, Crash i, Exit i, StartTimer i, TimeoutTimer i])
               [0..<length (workers s)]) @
     Abort # map RetryTimer [0..<length (retryTimers s)]"

definition idle :: "variant \<Rightarrow> (nat \<Rightarrow> 'v behaviour) \<Rightarrow> options \<Rightarrow> 'v state \<Rightarrow> bool" where
  "idle var beh opts s = list_all (\<lambda>ev. Option.is_none (fire var beh opts ev s)) (candidates s)"



text \<open>
  What \<^verbatim>\<open>exitHandler\<close> rejects with after a failure with exit code 1 when the variable
  holds \<open>v\<close>.
\<close>

definition reported :: "thrown \<Rightarrow> thrown" where
  "reported v = rejection (Some v) 1"

text \<open>
  A worker that \<^verbatim>\<open>terminate()\<close> ends without a failure that the pool hears of: a Web
  Worker, which has no exit event, and a Node worker whose thread is still starting,
  which exits with code 0.
\<close>

definition unheard :: "variant \<Rightarrow> worker \<Rightarrow> bool" where
  "unheard var w = (alive w \<and> (var = Web \<or> \<not> online w))"

text \<open>
  Delivering \<open>ev\<close> in \<open>s\<close> ends a worker without a word to the pool: a timeout or the signal
  terminates a worker as above, or a web worker throws a value that cannot be cloned.
\<close>

definition silent :: "variant \<Rightarrow> (nat \<Rightarrow> 'v behaviour) \<Rightarrow> event \<Rightarrow> 'v state \<Rightarrow> bool" where
  "silent var beh ev s =
     (case ev of
        TimeoutTimer i \<Rightarrow> i < length (workers s) \<and> unheard var (workers s ! i)
      | Abort \<Rightarrow> list_ex (\<lambda>i. i < length (workers s) \<and> unheard var (workers s ! i)) (abortListeners s)
      | Finish i \<Rightarrow> var = Web \<and> beh i = Completes ThrowsOpaque
      | _ \<Rightarrow> False)"

text \<open>A run none of whose events is silent in the state in which it is delivered.\<close>

fun audible :: "variant \<Rightarrow> (nat \<Rightarrow> 'v behaviour) \<Rightarrow> options \<Rightarrow> event list \<Rightarrow> 'v state \<Rightarrow> bool" where
  "audible var beh opts [] s = True"
| "audible var beh opts (ev # evs) s =
     (\<not> silent var beh ev s \<and>
      (case fire var beh opts ev s of None \<Rightarrow> False | Some s' \<Rightarrow> audible var beh opts evs s'))"

text \<open>A worker from which the pool will still hear: it is alive, or its exit with a
  non-zero code is on its way.\<close>

definition inflight :: "worker \<Rightarrow> bool" where
  "inflight w = (alive w \<or> (case phase w of Closing c \<Rightarrow> c \<noteq> 0 | _ \<Rightarrow> False))"

text \<open>
  The value that an event stores in \<^verbatim>\<open>errorInstance\<close>: the value that the \<^verbatim>\<open>error\<close> event
  of a Node worker carries, and the value in the error-tagged message of a web worker.
\<close>

definition records :: "variant \<Rightarrow> (nat \<Rightarrow> 'v behaviour) \<Rightarrow> event \<Rightarrow> thrown option" where
  "records var beh ev =
     (case ev of
        Finish i \<Rightarrow>
          (case beh i of
             Completes oc \<Rightarrow>
               (case var of
                  Node \<Rightarrow> (case escaped (node_script oc) of v # _ \<Rightarrow> Some (parent_sees v) | [] \<Rightarrow> None)
                | Web \<Rightarrow> (case posted (web_script oc) of Failure v # _ \<Rightarrow> Some v | _ \<Rightarrow> None))
           | _ \<Rightarrow> None)
      | Crash i \<Rightarrow>
          (case var of
             Node \<Rightarrow> (case beh i of Crashes e \<Rightarrow> Some e | _ \<Rightarrow> None)
           | Web \<Rightarrow> None)
      | _ \<Rightarrow> None)"

text \<open>An event that can write \<^verbatim>\<open>errorInstance\<close>: a computation that does not return plain
  data, or a failure of the worker.\<close>

definition writes :: "(nat \<Rightarrow> 'v behaviour) \<Rightarrow> event \<Rightarrow> bool" where
  "writes beh ev =
     (case ev of
        Finish i \<Rightarrow> (case beh i of Completes (Returns _) \<Rightarrow> False | _ \<Rightarrow> True)
      | Crash i \<Rightarrow> True
      | _ \<Rightarrow> False)"

subsection \<open>Invariants and measures\<close>


text \<open>
  The number of events that a worker can still cause: its thread coming up, its two
  timers, the end of its computation and its exit.
\<close>

definition weight :: "worker \<Rightarrow> nat" where
  "weight w =
     (if alive w \<and> \<not> online w then 1 else 0) + (if armed (startTimer w) then 1 else 0) +
     (if armed (timeoutTimer w) then 1 else 0) +
     (if alive w then 2 else 0) + (case phase w of Closing _ \<Rightarrow> 1 | _ \<Rightarrow> 0)"

text \<open>
  A bound on the number of events that can still be delivered: a pending retry timer
  stands for its own event and for the worker that it spawns, a retry that is still
  allowed for a retry timer as well, and a signal that has not fired for its abort event.
\<close>

definition budget :: "options \<Rightarrow> 'v state \<Rightarrow> nat" where
  "budget opts s =
     sum_list (map weight (workers s)) + 6 * length (retryTimers s) +
     7 * (length (retries opts) - retryCount s) +
     (if signal opts \<noteq> None \<and> \<not> aborted s then 1 else 0)"

section \<open>Properties\<close>

subsection \<open>Basic facts\<close>

lemma upd_fields:
  "retryCount (upd i f s) = retryCount s"
  "errorInstance (upd i f s) = errorInstance s"
  "promise (upd i f s) = promise s"
  "logs (upd i f s) = logs s"
  "retryTimers (upd i f s) = retryTimers s"
  "aborted (upd i f s) = aborted s"
  "abortListeners (upd i f s) = abortListeners s"
  "length (workers (upd i f s)) = length (workers s)"
  by (simp_all add: upd_def)

lemma upd_nth:
  "workers (upd i f s) ! j = (if j = i \<and> i < length (workers s) then f (workers s ! i) else workers s ! j)"
  by (cases "i < length (workers s)") (auto simp: upd_def list_update_beyond)

lemma fold_terminate_fields:
  "retryCount (fold (\<lambda>i. upd i (terminate var)) ls s) = retryCount s"
  "errorInstance (fold (\<lambda>i. upd i (terminate var)) ls s) = errorInstance s"
  "promise (fold (\<lambda>i. upd i (terminate var)) ls s) = promise s"
  "logs (fold (\<lambda>i. upd i (terminate var)) ls s) = logs s"
  "retryTimers (fold (\<lambda>i. upd i (terminate var)) ls s) = retryTimers s"
  "aborted (fold (\<lambda>i. upd i (terminate var)) ls s) = aborted s"
  "abortListeners (fold (\<lambda>i. upd i (terminate var)) ls s) = abortListeners s"
  "length (workers (fold (\<lambda>i. upd i (terminate var)) ls s)) = length (workers s)"
  by (induction ls arbitrary: s; simp add: upd_fields)+

lemma terminate_idem: "terminate var (terminate var w) = terminate var w"
  by (cases var) (simp_all add: terminate_def alive_def)

lemma fold_terminate_nth:
  "workers (fold (\<lambda>i. upd i (terminate var)) ls s) ! j =
     (if j \<in> set ls \<and> j < length (workers s) then terminate var (workers s ! j) else workers s ! j)"
  by (induction ls arbitrary: s) (auto simp: upd_fields upd_nth terminate_idem)

lemma dispatchAbort_fields:
  "retryCount (dispatchAbort var s) = retryCount s"
  "errorInstance (dispatchAbort var s) = errorInstance s"
  "promise (dispatchAbort var s) = promise s"
  "logs (dispatchAbort var s) = logs s"
  "retryTimers (dispatchAbort var s) = retryTimers s"
  "aborted (dispatchAbort var s) = True"
  "abortListeners (dispatchAbort var s) = []"
  "length (workers (dispatchAbort var s)) = length (workers s)"
  by (simp_all add: dispatchAbort_def fold_terminate_fields)

lemma dispatchAbort_nth:
  "workers (dispatchAbort var s) ! j =
     (if j \<in> set (abortListeners s) \<and> j < length (workers s)
      then terminate var (workers s ! j) else workers s ! j)"
  by (simp add: dispatchAbort_def fold_terminate_nth)

lemma finish_unfold:
  "finish var opts i oc s =
     (case var of
        Node \<Rightarrow>
          (case oc of
             Returns x \<Rightarrow> upd i (\<lambda>w. w\<lparr>phase := Closing 0\<rparr>) (node_on_message i x s)
           | ReturnsOpaque \<Rightarrow> upd i (\<lambda>w. w\<lparr>phase := Closing 1\<rparr>) (node_on_error DataCloneError s)
           | Throws v \<Rightarrow> upd i (\<lambda>w. w\<lparr>phase := Closing 1\<rparr>) (node_on_error v s)
           | ThrowsOpaque \<Rightarrow>
               upd i (\<lambda>w. w\<lparr>phase := Closing 1\<rparr>) (node_on_error (Value ''[inspected]'') s))
      | Web \<Rightarrow>
          (case oc of
             Returns x \<Rightarrow> upd i (\<lambda>w. w\<lparr>phase := Exited\<rparr>) (web_on_message opts i (Success x) s)
           | ReturnsOpaque \<Rightarrow>
               upd i (\<lambda>w. w\<lparr>phase := Exited\<rparr>) (web_on_message opts i (Failure DataCloneError) s)
           | Throws v \<Rightarrow> upd i (\<lambda>w. w\<lparr>phase := Exited\<rparr>) (web_on_message opts i (Failure v) s)
           | ThrowsOpaque \<Rightarrow> upd i (\<lambda>w. w\<lparr>phase := Exited\<rparr>) s))"
  by (cases var; cases oc)
    (simp_all add: finish_def node_script_def web_script_def web_try_def web_catch_def
       apply_runnable_def structuredClone_def parent_sees_def)


lemmas step_splits = if_splits behaviour.splits outcome.splits phase.splits timer.splits
  variant.splits option.splits response.splits

lemma armed_simps:
  "armed (clearTimeout t) = False" "armed Fired = False" "armed Unset = False"
  "armed Cleared = False" "armed (Armed d) = True"
  by (simp_all add: armed_def clearTimeout_def split: timer.splits)

lemmas quiet_defs = tryExecution_def createWorker_def postMessage_def
  terminate_def alive_def node_on_exit_def exitHandler_def resolve_def reject_def
  on_message_timers_def on_timeout_def node_on_message_def node_on_error_def
  dispatchExit_def web_on_message_def web_on_error_def finish_unfold crash_def Let_def
  upd_fields upd_nth dispatchAbort_fields dispatchAbort_nth armed_simps

lemma newWorker_fields:
  "phase (newWorker opts) = (if armed (startTimer (newWorker opts)) then Waiting else Running)"
  "onceMessage (newWorker opts)" "onceError (newWorker opts)" "onceExit (newWorker opts)"
  "\<not> online (newWorker opts)"
  by (auto simp: newWorker_def Let_def postMessage_def armed_simps split: option.splits)

lemma armed_iff: "armed t \<longleftrightarrow> (\<exists>d. t = Armed d)"
  by (cases t) (simp_all add: armed_simps)

lemma run_append:
  "run var beh opts (xs @ ys) s =
     (case run var beh opts xs s of None \<Rightarrow> None | Some s1 \<Rightarrow> run var beh opts ys s1)"
  by (induction xs arbitrary: s) (simp_all del: fire.simps split: option.splits)

text \<open>How Node handles the exit of a worker that did not succeed.\<close>

lemma node_failed_exit:
  assumes "i < length (workers s)" "phase (workers s ! i) = Closing c" "c \<noteq> 0"
  shows "\<exists>s'. fire Node beh opts (Exit i) s = Some s' \<and>
    length (workers s') = length (workers s) \<and>
    errorInstance s' = errorInstance s \<and>
    (if retryCount s < length (retries opts)
     then retryTimers s' = retryTimers s @ [retries opts ! retryCount s] \<and>
          retryCount s' = Suc (retryCount s) \<and> promise s' = promise s
     else retryTimers s' = retryTimers s \<and> retryCount s' = retryCount s \<and>
          promise s' =
            (if promise s = Pending
             then Rejected (rejection (errorInstance s) c)
             else promise s))"
  using assms
  by (simp add: node_on_exit_def exitHandler_def reject_def upd_fields Let_def)

lemma retry_spawns:
  assumes "k < length (retryTimers s)"
  shows "\<exists>s'. fire var beh opts (RetryTimer k) s = Some s' \<and>
    length (workers s') = Suc (length (workers s)) \<and> alive (last (workers s')) \<and>
    promise s' = promise s"
  using assms
  by (simp add: tryExecution_def createWorker_def newWorker_def alive_def postMessage_def Let_def
      split: option.splits)










subsection \<open>Options that agree on what the program reads\<close>

lemma exitHandler_cong: "retries o1 = retries o2 \<Longrightarrow> exitHandler o1 = exitHandler o2"
  by (intro ext) (simp add: exitHandler_def)

lemma createWorker_cong:
  "signal o1 = signal o2 \<Longrightarrow> newWorker o1 = newWorker o2 \<Longrightarrow> createWorker o1 = createWorker o2"
  by (intro ext) (simp add: createWorker_def)

lemma web_emit_cong: "retries o1 = retries o2 \<Longrightarrow> web_emit o1 = web_emit o2"
proof (intro ext)
  fix i and a :: "'a response action" and s :: "'a state"
  assume "retries o1 = retries o2"
  then have "exitHandler o1 = (exitHandler o2 :: int \<Rightarrow> 'a state \<Rightarrow> 'a state)"
    by (rule exitHandler_cong)
  then show "web_emit o1 i a s = web_emit o2 i a s"
    by (cases a) (simp_all add: web_on_message_def web_on_error_def dispatchExit_def Let_def split: response.splits)
qed

lemma fire_cong:
  assumes "signal o1 = signal o2" "retries o1 = retries o2" "newWorker o1 = newWorker o2"
  shows "fire var beh o1 ev s = fire var beh o2 ev s"
proof -
  have e: "exitHandler o1 = (exitHandler o2 :: int \<Rightarrow> 'a state \<Rightarrow> 'a state)"
    using assms(2) by (rule exitHandler_cong)
  have c: "createWorker o1 = (createWorker o2 :: 'a state \<Rightarrow> 'a state)"
    using assms(1,3) by (rule createWorker_cong)
  have w: "web_emit o1 = (web_emit o2 :: nat \<Rightarrow> 'a response action \<Rightarrow> 'a state \<Rightarrow> 'a state)"
    using assms(2) by (rule web_emit_cong)
  show ?thesis
    by (cases ev)
      (simp_all add: finish_def crash_def web_on_error_def dispatchExit_def node_on_exit_def tryExecution_def e c w assms(1)
         split: behaviour.splits phase.splits variant.splits)
qed

lemma run_cong:
  assumes "signal o1 = signal o2" "retries o1 = retries o2" "newWorker o1 = newWorker o2"
  shows "run var beh o1 evs s = run var beh o2 evs s"
  by (induction evs arbitrary: s) (simp_all add: fire_cong [OF assms] cong: option.case_cong)

lemma invoke_cong:
  assumes "signal o1 = signal o2" "newWorker o1 = newWorker o2"
  shows "invoke o1 = invoke o2"
  by (simp add: invoke_def tryExecution_def createWorker_cong [OF assms] assms(1))

subsection \<open>A first attempt that succeeds\<close>



subsection \<open>Zero delays\<close>

text \<open>
  C10. A \<^verbatim>\<open>timeout\<close> of 0 and a \<^verbatim>\<open>startTime\<close> of 0 behave exactly like the absent option,
  in both variants: with \<^verbatim>\<open>timeout\<close> 0 the new worker has no timeout timer, with
  \<^verbatim>\<open>startTime\<close> 0 it has no start timer and has its arguments at once, \<^verbatim>\<open>createWorker\<close>
  gives the same state as without the option, and so does every run of the pooled
  function.
\<close>

theorem zero_is_absent:
  "timeoutTimer (newWorker (opts\<lparr>timeout := Some 0\<rparr>)) = Unset \<and>
   createWorker (opts\<lparr>timeout := Some 0\<rparr>) s = createWorker (opts\<lparr>timeout := None\<rparr>) s \<and>
   run var beh (opts\<lparr>timeout := Some 0\<rparr>) evs (invoke (opts\<lparr>timeout := Some 0\<rparr>)) =
     run var beh (opts\<lparr>timeout := None\<rparr>) evs (invoke (opts\<lparr>timeout := None\<rparr>)) \<and>
   startTimer (newWorker (opts\<lparr>startTime := Some 0\<rparr>)) = Unset \<and>
   phase (newWorker (opts\<lparr>startTime := Some 0\<rparr>)) = Running \<and>
   createWorker (opts\<lparr>startTime := Some 0\<rparr>) s = createWorker (opts\<lparr>startTime := None\<rparr>) s \<and>
   run var beh (opts\<lparr>startTime := Some 0\<rparr>) evs (invoke (opts\<lparr>startTime := Some 0\<rparr>)) =
     run var beh (opts\<lparr>startTime := None\<rparr>) evs (invoke (opts\<lparr>startTime := None\<rparr>))"
proof -
  have a: "newWorker (opts\<lparr>timeout := Some 0\<rparr>) = newWorker (opts\<lparr>timeout := None\<rparr>)"
    by (simp add: newWorker_def truthy_def)
  have b: "newWorker (opts\<lparr>startTime := Some 0\<rparr>) = newWorker (opts\<lparr>startTime := None\<rparr>)"
    by (simp add: newWorker_def truthy_def)
  have c: "run var beh (opts\<lparr>timeout := Some 0\<rparr>) evs (invoke (opts\<lparr>timeout := Some 0\<rparr>)) =
     run var beh (opts\<lparr>timeout := None\<rparr>) evs (invoke (opts\<lparr>timeout := None\<rparr>))"
    by (subst invoke_cong [of "opts\<lparr>timeout := Some 0\<rparr>" "opts\<lparr>timeout := None\<rparr>"], simp, simp add: a,
        rule run_cong) (simp_all add: a retries_def)
  have d: "run var beh (opts\<lparr>startTime := Some 0\<rparr>) evs (invoke (opts\<lparr>startTime := Some 0\<rparr>)) =
     run var beh (opts\<lparr>startTime := None\<rparr>) evs (invoke (opts\<lparr>startTime := None\<rparr>))"
    by (subst invoke_cong [of "opts\<lparr>startTime := Some 0\<rparr>" "opts\<lparr>startTime := None\<rparr>"], simp, simp add: b,
        rule run_cong) (simp_all add: b retries_def)
  have e: "timeoutTimer (newWorker (opts\<lparr>timeout := Some 0\<rparr>)) = Unset"
    by (simp add: newWorker_def truthy_def postMessage_def Let_def)
  have f: "startTimer (newWorker (opts\<lparr>startTime := Some 0\<rparr>)) = Unset"
          "phase (newWorker (opts\<lparr>startTime := Some 0\<rparr>)) = Running"
    by (simp_all add: newWorker_def truthy_def postMessage_def Let_def split: option.splits)
  have i: "createWorker (opts\<lparr>timeout := Some 0\<rparr>) s = createWorker (opts\<lparr>timeout := None\<rparr>) s"
          "createWorker (opts\<lparr>startTime := Some 0\<rparr>) s = createWorker (opts\<lparr>startTime := None\<rparr>) s"
    by (simp_all add: createWorker_def a b)
  show ?thesis
    using c d e f i by simp
qed

subsection \<open>What the worker sends back\<close>

lemmas script_defs = node_script_def web_script_def web_try_def web_catch_def
  apply_runnable_def structuredClone_def




subsection \<open>Timers after a terminal event\<close>

lemma unarmed_fire:
  assumes "i < length (workers s)" "\<not> armed (startTimer (workers s ! i))"
    "\<not> armed (timeoutTimer (workers s ! i))" "fire var beh opts ev s = Some s'"
  shows "i < length (workers s') \<and> \<not> armed (startTimer (workers s' ! i)) \<and>
    \<not> armed (timeoutTimer (workers s' ! i)) \<and> ev \<noteq> StartTimer i \<and> ev \<noteq> TimeoutTimer i"
  using assms
  by (cases ev) (auto simp: quiet_defs nth_append split: step_splits)

lemma unarmed_run:
  assumes "run var beh opts evs s = Some s'" "i < length (workers s)"
    "\<not> armed (startTimer (workers s ! i))" "\<not> armed (timeoutTimer (workers s ! i))"
  shows "StartTimer i \<notin> set evs \<and> TimeoutTimer i \<notin> set evs"
  using assms
proof (induction evs arbitrary: s)
  case Nil
  then show ?case by simp
next
  case (Cons ev evs)
  from Cons.prems(1) obtain s1 where f: "fire var beh opts ev s = Some s1"
    and r: "run var beh opts evs s1 = Some s'"
    by (auto split: option.splits)
  from unarmed_fire [OF Cons.prems(2-4) f] Cons.IH [OF r] show ?case by auto
qed

lemma posts_iff:
  "posts Node oc \<longleftrightarrow> (\<exists>x. oc = Returns x)"
  "posts Web oc \<longleftrightarrow> oc \<noteq> ThrowsOpaque"
  by (cases oc; simp add: posts_def script_defs)+

text \<open>
  C7, as the claim states it, fails for the error event: in the Node variant with a
  timeout of 50 ms, after the computation has thrown and the \<^verbatim>\<open>error\<close> listener has run,
  the timeout timer of the worker is still armed.
\<close>

theorem error_keeps_timeout_armed:
  "map_option (\<lambda>s. timeoutTimer (workers s ! 0))
     (run Node (\<lambda>_. Completes (Throws (Error ''boom'')) :: int behaviour) (no_options\<lparr>timeout := Some 50\<rparr>)
        [Online 0, Finish 0] (invoke (no_options\<lparr>timeout := Some 50\<rparr>))) = Some (Armed 50)"
  by code_simp

text \<open>
  C7, amended. Whenever a message of a worker is observed (the script of the worker
  posts one: in the Node variant for a returned value, in the web variant for every
  outcome that can be cloned), both timers of that worker are cleared: neither is armed
  afterwards, and in no run that follows does the start timer or the timeout timer of
  that worker run out. So a timeout that has not fired can never terminate a worker that
  has delivered its message. The \<^verbatim>\<open>error\<close> event clears no timer.
\<close>

theorem message_clears_timers:
  assumes "fire var beh opts (Finish i) s = Some s1"
    and "beh i = Completes oc" and "posts var oc"
    and "run var beh opts evs s1 = Some s2"
  shows "\<not> armed (startTimer (workers s1 ! i)) \<and> \<not> armed (timeoutTimer (workers s1 ! i)) \<and>
    StartTimer i \<notin> set evs \<and> TimeoutTimer i \<notin> set evs"
proof -
  from assms(1-3) have a: "i < length (workers s1) \<and> \<not> armed (startTimer (workers s1 ! i)) \<and>
      \<not> armed (timeoutTimer (workers s1 ! i))"
    by (cases var) (auto simp: posts_iff quiet_defs split: step_splits)
  with unarmed_run [OF assms(4)] show ?thesis by blast
qed

theorem message_clears_timers_witness:
  "\<exists>s0 s1 s2.
     run Node (\<lambda>_. Completes (Returns (5::int))) (no_options\<lparr>timeout := Some 50\<rparr>) [Online 0]
       (invoke (no_options\<lparr>timeout := Some 50\<rparr>)) = Some s0 \<and>
     armed (timeoutTimer (workers s0 ! 0)) \<and>
     fire Node (\<lambda>_. Completes (Returns (5::int))) (no_options\<lparr>timeout := Some 50\<rparr>) (Finish 0) s0 =
       Some s1 \<and>
     posts Node (Returns (5::int)) \<and>
     run Node (\<lambda>_. Completes (Returns (5::int))) (no_options\<lparr>timeout := Some 50\<rparr>) [Exit 0] s1 = Some s2 \<and>
     \<not> armed (startTimer (workers s1 ! 0)) \<and> \<not> armed (timeoutTimer (workers s1 ! 0)) \<and>
     StartTimer 0 \<notin> set [Exit 0] \<and> TimeoutTimer 0 \<notin> set [Exit 0]"
proof -
  let ?beh = "\<lambda>_::nat. Completes (Returns (5::int))"
  let ?o = "no_options\<lparr>timeout := Some 50\<rparr>"
  have "\<not> Option.is_none (run Node ?beh ?o [Online 0, Finish 0, Exit 0] (invoke ?o))"
    by code_simp
  then obtain s0 s1 s2 where o: "run Node ?beh ?o [Online 0] (invoke ?o) = Some s0"
    and f: "fire Node ?beh ?o (Finish 0) s0 = Some s1"
    and r: "run Node ?beh ?o [Exit 0] s1 = Some s2"
    by (auto simp: Option.is_none_def simp del: fire.simps split: option.splits)
  have "map_option (\<lambda>s. armed (timeoutTimer (workers s ! 0)))
      (run Node ?beh ?o [Online 0] (invoke ?o)) = Some True"
    by code_simp
  with o have a: "armed (timeoutTimer (workers s0 ! 0))" by simp
  have b: "?beh 0 = Completes (Returns 5)" by simp
  have p: "posts Node (Returns (5::int))" by (simp add: posts_iff)
  from message_clears_timers [OF f b p r] o f r a p show ?thesis
    by (auto simp del: fire.simps run.simps)
qed

subsection \<open>A signal that is aborted before the call\<close>

text \<open>
  C8. The claim is what the option \<^verbatim>\<open>signal\<close> is documented to do ("to abort the execution
  of the runnable function"), and the code does not do it: \<^verbatim>\<open>createWorker\<close> only registers
  a listener for the \<^verbatim>\<open>abort\<close> event and never reads \<^verbatim>\<open>signal.aborted\<close>. With a signal that
  is already aborted when the pooled function is called, the first worker is alive after
  the call, the abort event can no longer be delivered, and when the computation throws
  and one retry is configured a second worker is spawned.
\<close>

theorem aborted_signal_not_seen:
  "alive (workers (invoke (no_options\<lparr>signal := Some True, retriesWithIn := Some [10]\<rparr>) :: int state) ! 0) \<and>
   Option.is_none (fire Node (\<lambda>_. Completes (Throws (Error ''boom'')) :: int behaviour)
      (no_options\<lparr>signal := Some True, retriesWithIn := Some [10]\<rparr>) Abort
      (invoke (no_options\<lparr>signal := Some True, retriesWithIn := Some [10]\<rparr>))) \<and>
   map_option (\<lambda>s. (length (workers s), alive (workers s ! 1)))
     (run Node (\<lambda>_. Completes (Throws (Error ''boom'')) :: int behaviour)
        (no_options\<lparr>signal := Some True, retriesWithIn := Some [10]\<rparr>)
        [Online 0, Finish 0, Exit 0, RetryTimer 0]
        (invoke (no_options\<lparr>signal := Some True, retriesWithIn := Some [10]\<rparr>))) = Some (2, True) \<and>
   map_option (\<lambda>s. promise s)
     (run Web (\<lambda>_. Completes (Returns 5) :: int behaviour)
        (no_options\<lparr>signal := Some True\<rparr>) [Online 0, Finish 0]
        (invoke (no_options\<lparr>signal := Some True\<rparr>))) = Some (Resolved 5)"
  by code_simp

subsection \<open>The abort signal during a call\<close>

text \<open>
  C4. The claim is what aborting a call means, and the Node variant does not do it:
  \<^verbatim>\<open>exitHandler\<close> cannot tell a worker that the signal has stopped from one that failed. With
  one retry configured, the signal fires while the first worker runs, the worker is
  terminated, its exit event (code 1) arrives, the retry timer is set and runs out, and
  a second worker is spawned. It is alive, and the signal, which has fired, can no
  longer stop it.
\<close>

theorem abort_then_retry:
  "map_option (\<lambda>s. (length (workers s), alive (workers s ! 1), promise s,
       Option.is_none (fire Node (\<lambda>_. Never :: int behaviour)
         (no_options\<lparr>signal := Some False, retriesWithIn := Some [10]\<rparr>) Abort s)))
     (run Node (\<lambda>_. Never :: int behaviour) (no_options\<lparr>signal := Some False, retriesWithIn := Some [10]\<rparr>)
        [Online 0, Abort, Exit 0, RetryTimer 0]
        (invoke (no_options\<lparr>signal := Some False, retriesWithIn := Some [10]\<rparr>))) =
   Some (2, True, Pending, True)"
  by code_simp

subsection \<open>The timeout\<close>

text \<open>
  C5. The claim is the design: the timeout timer is set at spawn, its callback
  terminates the worker and clears the start timer, and the exit of the worker is meant
  to reach \<^verbatim>\<open>exitHandler\<close> as a failure. In the Node variant it does when the thread is up
  (exit code 1). It does not in the web variant: a Web Worker has no exit event, and the
  callback dispatches none, so after the timeout of a computation that never completes
  the pool hears nothing: no retry is scheduled although one is configured, the promise
  stays pending, and nothing can happen any more. The same happens in the Node variant
  when the timeout hits a thread that is still starting: its exit code is 0, and
  \<^verbatim>\<open>exitHandler\<close> returns at once.
\<close>

theorem timeout_not_heard:
  "map_option (\<lambda>s. (promise s, retryCount s, retryTimers s, length (workers s),
       alive (workers s ! 0),
       idle Web (\<lambda>_. Never :: int behaviour) (no_options\<lparr>timeout := Some 50, retriesWithIn := Some [10]\<rparr>) s))
     (run Web (\<lambda>_. Never :: int behaviour) (no_options\<lparr>timeout := Some 50, retriesWithIn := Some [10]\<rparr>)
        [Online 0, TimeoutTimer 0]
        (invoke (no_options\<lparr>timeout := Some 50, retriesWithIn := Some [10]\<rparr>))) =
   Some (Pending, 0, [], 1, False, True) \<and>
   map_option (\<lambda>s. (promise s, retryCount s, retryTimers s, length (workers s),
       alive (workers s ! 0),
       idle Node (\<lambda>_. Never :: int behaviour) (no_options\<lparr>timeout := Some 50, retriesWithIn := Some [10]\<rparr>) s))
     (run Node (\<lambda>_. Never :: int behaviour) (no_options\<lparr>timeout := Some 50, retriesWithIn := Some [10]\<rparr>)
        [TimeoutTimer 0, Exit 0]
        (invoke (no_options\<lparr>timeout := Some 50, retriesWithIn := Some [10]\<rparr>))) =
   Some (Pending, 0, [], 1, False, True)"
  by code_simp

subsection \<open>The recorded error\<close>

lemma error_kept_fire:
  assumes "fire var beh opts ev s = Some s'" "\<not> writes beh ev"
  shows "errorInstance s' = errorInstance s"
  using assms
  by (cases ev) (auto simp: quiet_defs writes_def split: step_splits)

lemma error_kept_run:
  assumes "run var beh opts evs s = Some s'" "\<forall>ev \<in> set evs. \<not> writes beh ev"
  shows "errorInstance s' = errorInstance s"
  using assms
proof (induction evs arbitrary: s)
  case Nil
  then show ?case by simp
next
  case (Cons ev evs)
  from Cons.prems(1) obtain s1 where f: "fire var beh opts ev s = Some s1"
    and r: "run var beh opts evs s1 = Some s'"
    by (auto split: option.splits)
  from error_kept_fire [OF f] Cons.IH [OF r] Cons.prems(2) show ?case by simp
qed

text \<open>A worker that has not finished still has the three listeners of \<^verbatim>\<open>tryExecution\<close>.\<close>

lemma listening_fire:
  assumes "\<forall>j < length (workers s). alive (workers s ! j) \<longrightarrow>
      onceMessage (workers s ! j) \<and> onceError (workers s ! j) \<and> onceExit (workers s ! j)"
    "fire var beh opts ev s = Some s'"
  shows "\<forall>j < length (workers s'). alive (workers s' ! j) \<longrightarrow>
      onceMessage (workers s' ! j) \<and> onceError (workers s' ! j) \<and> onceExit (workers s' ! j)"
  using assms
  by (cases ev) (auto simp: quiet_defs newWorker_fields nth_append split: step_splits)

lemma listening_run:
  assumes "run var beh opts evs s = Some s'"
    "\<forall>j < length (workers s). alive (workers s ! j) \<longrightarrow>
      onceMessage (workers s ! j) \<and> onceError (workers s ! j) \<and> onceExit (workers s ! j)"
  shows "\<forall>j < length (workers s'). alive (workers s' ! j) \<longrightarrow>
      onceMessage (workers s' ! j) \<and> onceError (workers s' ! j) \<and> onceExit (workers s' ! j)"
  using assms
proof (induction evs arbitrary: s)
  case Nil
  then show ?case by simp
next
  case (Cons ev evs)
  from Cons.prems(1) obtain s1 where f: "fire var beh opts ev s = Some s1"
    and r: "run var beh opts evs s1 = Some s'"
    by (auto split: option.splits)
  from Cons.IH [OF r listening_fire [OF Cons.prems(2) f]] show ?case .
qed

lemma listening_invoke:
  "\<forall>j < length (workers (invoke opts)). alive (workers (invoke opts) ! j) \<longrightarrow>
      onceMessage (workers (invoke opts) ! j) \<and> onceError (workers (invoke opts) ! j) \<and>
      onceExit (workers (invoke opts) ! j)"
  by (simp add: invoke_def tryExecution_def createWorker_def newWorker_fields)

text \<open>The exit code of a thread is 0 or 1.\<close>

lemma codes_fire:
  assumes "\<forall>j < length (workers s). \<forall>c. phase (workers s ! j) = Closing c \<longrightarrow> c = 0 \<or> c = 1"
    "fire var beh opts ev s = Some s'"
  shows "\<forall>j < length (workers s'). \<forall>c. phase (workers s' ! j) = Closing c \<longrightarrow> c = 0 \<or> c = 1"
  using assms
  by (cases ev) (auto simp: quiet_defs newWorker_fields nth_append split: step_splits)

lemma codes_run:
  assumes "run var beh opts evs s = Some s'"
    "\<forall>j < length (workers s). \<forall>c. phase (workers s ! j) = Closing c \<longrightarrow> c = 0 \<or> c = 1"
  shows "\<forall>j < length (workers s'). \<forall>c. phase (workers s' ! j) = Closing c \<longrightarrow> c = 0 \<or> c = 1"
  using assms
proof (induction evs arbitrary: s)
  case Nil
  then show ?case by simp
next
  case (Cons ev evs)
  from Cons.prems(1) obtain s1 where f: "fire var beh opts ev s = Some s1"
    and r: "run var beh opts evs s1 = Some s'"
    by (auto split: option.splits)
  from Cons.IH [OF r codes_fire [OF Cons.prems(2) f]] show ?case .
qed

lemma codes_invoke:
  "\<forall>j < length (workers (invoke opts)). \<forall>c.
     phase (workers (invoke opts) ! j) = Closing c \<longrightarrow> c = 0 \<or> c = 1"
  by (simp add: invoke_def tryExecution_def createWorker_def newWorker_fields)

lemma recorded_fire:
  assumes "\<forall>j < length (workers s). alive (workers s ! j) \<longrightarrow>
      onceMessage (workers s ! j) \<and> onceError (workers s ! j) \<and> onceExit (workers s ! j)"
    "fire var beh opts ev s = Some s'" "records var beh ev = Some v"
  shows "errorInstance s' = Some v"
proof (cases ev)
  case (Finish i)
  with assms(2) obtain oc where b: "beh i = Completes oc" and l: "i < length (workers s)"
    and p: "phase (workers s ! i) = Running" and s': "s' = finish var opts i oc s"
    by (auto split: if_splits behaviour.splits)
  from assms(1) l p have o: "onceMessage (workers s ! i)" "onceExit (workers s ! i)"
    by (simp_all add: alive_def)
  from assms(3) Finish b o l show ?thesis
    by (cases var; cases oc)
      (simp_all add: s' records_def script_defs parent_sees_def quiet_defs DataCloneError_def)
next
  case (Crash i)
  with assms(2,3) show ?thesis
    by (cases var) (auto simp: records_def quiet_defs split: if_splits behaviour.splits)
qed (use assms(3) in \<open>simp_all add: records_def\<close>)

text \<open>
  C9, as the claim states it, fails: the first attempt throws the string \<^verbatim>\<open>'boom'\<close>, which
  the \<^verbatim>\<open>error\<close> listener records; the second attempt never completes and is stopped by the
  timeout, without an error event, and its exit exhausts the one retry. The variable
  still holds \<^verbatim>\<open>'boom'\<close>, yet the promise is rejected with the generic error, because
  \<^verbatim>\<open>exitHandler\<close> passes the recorded value on only when it is an \<^verbatim>\<open>Error\<close> object.
\<close>

theorem recorded_string_is_not_reported:
  "map_option (\<lambda>s. (errorInstance s, promise s))
     (run Node (\<lambda>i. if i = 0 then Completes (Throws (Value ''boom'')) else Never :: int behaviour)
        (no_options\<lparr>timeout := Some 50, retriesWithIn := Some [10]\<rparr>)
        [Online 0, Finish 0, Exit 0, RetryTimer 0, Online 1, TimeoutTimer 1, Exit 1]
        (invoke (no_options\<lparr>timeout := Some 50, retriesWithIn := Some [10]\<rparr>))) =
   Some (Some (Value ''boom''), Rejected (Error ''Worker stopped with exit code 1''))"
  by code_simp

text \<open>
  C9, amended. In every state that a call can reach, the \<^verbatim>\<open>error\<close> event of a Node worker
  and the error-tagged message of a web worker set \<^verbatim>\<open>errorInstance\<close> to the value they
  carry. Nothing clears it between attempts: after any further events none of which
  writes the variable (exits, retry timers and the workers they spawn, start and timeout
  timers, the abort signal, threads coming up, successes) it still holds that value. So
  when the exit of an attempt that produced no error event exhausts the retries, with a
  non-zero code and the promise pending, the promise is rejected with the value recorded
  in the earlier attempt when that value is an \<^verbatim>\<open>Error\<close> object, and with the generic
  "Worker stopped with exit code 1" error when it is anything else. (Only Node delivers
  exit events; in the web variant \<^verbatim>\<open>exitHandler\<close> runs only inside the message and error
  listeners.)
\<close>

theorem last_error_is_kept:
  assumes "run var beh opts evs0 (invoke opts) = Some s0"
    and "fire var beh opts ev0 s0 = Some s" and "records var beh ev0 = Some v"
    and "run var beh opts evs s = Some s1" and "\<forall>ev \<in> set evs. \<not> writes beh ev"
  shows "errorInstance s = Some v \<and> errorInstance s1 = Some v \<and>
    (\<forall>i s2. fire var beh opts (Exit i) s1 = Some s2 \<and> phase (workers s1 ! i) \<noteq> Closing 0 \<and>
       \<not> retryCount s1 < length (retries opts) \<and> promise s1 = Pending \<longrightarrow>
       promise s2 = Rejected (reported v))"
proof -
  have a: "errorInstance s = Some v"
    using listening_run [OF assms(1) listening_invoke] assms(2,3) by (rule recorded_fire)
  have b: "errorInstance s1 = Some v"
    using error_kept_run [OF assms(4,5)] a by simp
  have "run var beh opts (evs0 @ ev0 # evs) (invoke opts) = Some s1"
    using assms(1,2,4) by (simp add: run_append del: fire.simps)
  from codes_run [OF this codes_invoke]
  have codes: "\<forall>j < length (workers s1). \<forall>c. phase (workers s1 ! j) = Closing c \<longrightarrow> c = 0 \<or> c = 1" .
  have "promise s2 = Rejected (reported v)"
    if x: "fire var beh opts (Exit i) s1 = Some s2" and nz: "phase (workers s1 ! i) \<noteq> Closing 0"
      and ex: "\<not> retryCount s1 < length (retries opts)" and pe: "promise s1 = Pending"
    for i s2
  proof -
    from x obtain c where n: "var = Node" and l: "i < length (workers s1)"
      and p: "phase (workers s1 ! i) = Closing c"
      by (auto split: if_splits phase.splits)
    with nz codes have c: "c = 1" by auto
    from node_failed_exit [OF l p, of beh opts] x n ex pe b c
    show ?thesis by (auto simp: reported_def simp del: fire.simps)
  qed
  with a b show ?thesis by blast
qed

theorem last_error_is_kept_witness:
  "\<exists>s0 s s1 s2.
     run Node (\<lambda>i. if i = 0 then Completes (Throws (Error ''boom'')) else Never :: int behaviour)
       (no_options\<lparr>timeout := Some 50, retriesWithIn := Some [10]\<rparr>) [Online 0]
       (invoke (no_options\<lparr>timeout := Some 50, retriesWithIn := Some [10]\<rparr>)) = Some s0 \<and>
     fire Node (\<lambda>i. if i = 0 then Completes (Throws (Error ''boom'')) else Never :: int behaviour)
       (no_options\<lparr>timeout := Some 50, retriesWithIn := Some [10]\<rparr>) (Finish 0) s0 = Some s \<and>
     records Node (\<lambda>i. if i = 0 then Completes (Throws (Error ''boom'')) else Never :: int behaviour)
       (Finish 0) = Some (Error ''boom'') \<and>
     run Node (\<lambda>i. if i = 0 then Completes (Throws (Error ''boom'')) else Never :: int behaviour)
       (no_options\<lparr>timeout := Some 50, retriesWithIn := Some [10]\<rparr>)
       [Exit 0, RetryTimer 0, Online 1, TimeoutTimer 1] s = Some s1 \<and>
     list_all (\<lambda>ev. \<not> writes (\<lambda>i. if i = 0 then Completes (Throws (Error ''boom'')) else Never :: int behaviour) ev)
       [Exit 0, RetryTimer 0, Online 1, TimeoutTimer 1] \<and>
     fire Node (\<lambda>i. if i = 0 then Completes (Throws (Error ''boom'')) else Never :: int behaviour)
       (no_options\<lparr>timeout := Some 50, retriesWithIn := Some [10]\<rparr>) (Exit 1) s1 = Some s2 \<and>
     phase (workers s1 ! 1) = Closing 1 \<and> retryCount s1 = 1 \<and> promise s1 = Pending \<and>
     errorInstance s1 = Some (Error ''boom'') \<and> promise s2 = Rejected (Error ''boom'')"
proof -
  let ?beh = "\<lambda>i::nat. if i = 0 then Completes (Throws (Error ''boom'')) else Never :: int behaviour"
  let ?o = "no_options\<lparr>timeout := Some 50, retriesWithIn := Some [10]\<rparr>"
  let ?s = "invoke ?o :: int state"
  have "\<not> Option.is_none
    (run Node ?beh ?o [Online 0, Finish 0, Exit 0, RetryTimer 0, Online 1, TimeoutTimer 1, Exit 1] ?s)"
    by code_simp
  then obtain s0 s s1 s2 where z: "run Node ?beh ?o [Online 0] ?s = Some s0"
    and f: "fire Node ?beh ?o (Finish 0) s0 = Some s"
    and r: "run Node ?beh ?o [Exit 0, RetryTimer 0, Online 1, TimeoutTimer 1] s = Some s1"
    and x: "fire Node ?beh ?o (Exit 1) s1 = Some s2"
    by (auto simp: Option.is_none_def simp del: fire.simps split: option.splits)
  have e: "records Node ?beh (Finish 0) = Some (Error ''boom'')"
    by code_simp
  have n: "\<forall>ev \<in> set [Exit 0, RetryTimer 0, Online 1, TimeoutTimer 1]. \<not> writes ?beh ev"
    by (simp add: writes_def)
  have v: "map_option (\<lambda>t. (phase (workers t ! 1), retryCount t, promise t))
      (run Node ?beh ?o [Online 0, Finish 0, Exit 0, RetryTimer 0, Online 1, TimeoutTimer 1] ?s) =
      Some (Closing 1, 1, Pending)"
    by code_simp
  have "run Node ?beh ?o (Finish 0 # [Exit 0, RetryTimer 0, Online 1, TimeoutTimer 1]) s0 = Some s1"
    using f r by (simp only: run.simps option.case)
  with z have "run Node ?beh ?o ([Online 0] @ Finish 0 # [Exit 0, RetryTimer 0, Online 1, TimeoutTimer 1]) ?s =
      Some s1"
    by (simp only: run_append option.case)
  then have "run Node ?beh ?o [Online 0, Finish 0, Exit 0, RetryTimer 0, Online 1, TimeoutTimer 1] ?s = Some s1"
    by (simp only: append_Cons append_Nil)
  with v have p: "phase (workers s1 ! 1) = Closing 1" and c: "retryCount s1 = 1"
    and q: "promise s1 = Pending"
    by simp_all
  have c': "\<not> retryCount s1 < length (retries ?o)"
    using c by (simp add: retries_def no_options_def)
  have rep: "reported (Error ''boom'') = Error ''boom''"
    by (simp add: reported_def rejection_def)
  from last_error_is_kept [OF z f e r n]
  have k1: "errorInstance s1 = Some (Error ''boom'')"
    and k2: "fire Node ?beh ?o (Exit 1) s1 = Some s2 \<and> phase (workers s1 ! 1) \<noteq> Closing 0 \<and>
       \<not> retryCount s1 < length (retries ?o) \<and> promise s1 = Pending \<longrightarrow>
       promise s2 = Rejected (reported (Error ''boom''))"
    by blast+
  from k2 x p c' q rep have k3: "promise s2 = Rejected (Error ''boom'')"
    by (simp del: fire.simps)
  have m: "list_all (\<lambda>ev. \<not> writes ?beh ev) [Exit 0, RetryTimer 0, Online 1, TimeoutTimer 1]"
    using n by (simp add: list_all_iff)
  from z f e r m x p c q k1 k3 show ?thesis
    by blast
qed

subsection \<open>What the abort and the timeout do reach\<close>

text \<open>Until the signal is aborted, every worker has its abort listener registered.\<close>

lemma listeners_fire:
  assumes "signal opts \<noteq> None" "\<not> aborted s \<longrightarrow> abortListeners s = [0..<length (workers s)]"
    "fire var beh opts ev s = Some s'"
  shows "\<not> aborted s' \<longrightarrow> abortListeners s' = [0..<length (workers s')]"
  using assms
  by (cases ev) (auto simp: quiet_defs split: step_splits)

lemma listeners_run:
  assumes "run var beh opts evs s = Some s'" "signal opts \<noteq> None"
    "\<not> aborted s \<longrightarrow> abortListeners s = [0..<length (workers s)]"
  shows "\<not> aborted s' \<longrightarrow> abortListeners s' = [0..<length (workers s')]"
  using assms
proof (induction evs arbitrary: s)
  case Nil
  then show ?case by simp
next
  case (Cons ev evs)
  from Cons.prems(1) obtain s1 where f: "fire var beh opts ev s = Some s1"
    and r: "run var beh opts evs s1 = Some s'"
    by (auto split: option.splits)
  from Cons.IH [OF r Cons.prems(2) listeners_fire [OF Cons.prems(2,3) f]] show ?case .
qed

lemma listeners_invoke:
  assumes "signal opts \<noteq> None"
  shows "abortListeners (invoke opts) = [0..<length (workers (invoke opts))]"
  using assms by (auto simp: invoke_def tryExecution_def createWorker_def)

text \<open>
  X1. When the signal fires during a call, in either variant, every worker spawned so
  far is terminated at once. None is alive afterwards, no worker is added or removed, the
  promise is as it was, and the signal cannot fire a second time.
\<close>

theorem abort_terminates_workers:
  assumes "run var beh opts evs (invoke opts) = Some (s :: 'v state)"
    and "fire var beh opts Abort s = Some s1"
  shows "list_all (\<lambda>w. \<not> alive w) (workers s1) \<and> length (workers s1) = length (workers s) \<and>
    promise s1 = promise s \<and> Option.is_none (fire var beh opts Abort s1)"
proof -
  from assms(2) have sig: "signal opts \<noteq> None" and na: "\<not> aborted s"
    and s1: "s1 = dispatchAbort var s"
    by (auto split: if_splits)
  have "abortListeners (invoke opts :: 'v state) = [0..<length (workers (invoke opts :: 'v state))]"
    using sig by (rule listeners_invoke)
  with listeners_run [OF assms(1) sig] na
  have ls: "abortListeners s = [0..<length (workers s)]" by simp
  have "\<not> alive (workers s1 ! j)" if "j < length (workers s1)" for j
    using that
    by (cases var) (simp_all add: s1 dispatchAbort_fields dispatchAbort_nth ls terminate_def alive_def)
  then have "list_all (\<lambda>w. \<not> alive w) (workers s1)"
    by (auto simp: list_all_iff in_set_conv_nth)
  then show ?thesis
    by (simp add: s1 dispatchAbort_fields)
qed

theorem abort_terminates_workers_witness:
  "\<exists>s s1.
     run Web (\<lambda>_. Never :: int behaviour) (no_options\<lparr>signal := Some False\<rparr>) [Online 0]
       (invoke (no_options\<lparr>signal := Some False\<rparr>)) = Some s \<and>
     alive (workers s ! 0) \<and>
     fire Web (\<lambda>_. Never :: int behaviour) (no_options\<lparr>signal := Some False\<rparr>) Abort s = Some s1 \<and>
     list_all (\<lambda>w. \<not> alive w) (workers s1) \<and> length (workers s1) = 1 \<and> promise s1 = Pending"
proof -
  let ?beh = "\<lambda>_::nat. Never :: int behaviour"
  let ?o = "no_options\<lparr>signal := Some False\<rparr>"
  have "\<not> Option.is_none (run Web ?beh ?o ([Online 0] @ [Abort]) (invoke ?o))"
    by code_simp
  then obtain s s1 where r: "run Web ?beh ?o [Online 0] (invoke ?o) = Some s"
    and f: "fire Web ?beh ?o Abort s = Some s1"
    unfolding run_append
    by (auto simp: Option.is_none_def simp del: fire.simps split: option.splits)
  have "map_option (\<lambda>s. (alive (workers s ! 0), length (workers s), promise s))
      (run Web ?beh ?o [Online 0] (invoke ?o)) = Some (True, 1, Pending)"
    by code_simp
  with r have v: "alive (workers s ! 0)" "length (workers s) = 1" "promise s = Pending"
    by simp_all
  from abort_terminates_workers [OF r f] r f v show ?thesis
    by auto
qed

text \<open>
  X2. The timeout in the Node variant, for a worker whose thread is up. When a timeout of \<open>T\<close> ms is configured (\<open>T\<close> is not 0), the worker that
  \<^verbatim>\<open>createWorker\<close> spawns has its timeout timer armed with \<open>T\<close> from the start, whether or
  not its arguments are delayed. When that timer runs out on a worker that has not
  finished, the worker is terminated (its exit with code 1 is pending), its start timer
  is no longer armed, and the promise is untouched. The exit event that follows is that
  of a failed attempt: if \<^verbatim>\<open>retryCount\<close> is below the length of \<^verbatim>\<open>retriesWithIn\<close> the count
  goes up by one and the retry timer that was set spawns one more worker when it runs
  out; otherwise a pending promise is rejected.
\<close>

theorem node_timeout_heard:
  assumes "timeout opts = Some T" and "T \<noteq> 0"
    and "i < length (workers s)" and "alive (workers s ! i)" and "online (workers s ! i)"
    and "timeoutTimer (workers s ! i) = Armed T"
  shows "timeoutTimer (last (workers (createWorker opts s0))) = Armed T \<and>
    (\<exists>s1 s2. fire Node beh opts (TimeoutTimer i) s = Some s1 \<and>
       phase (workers s1 ! i) = Closing 1 \<and> \<not> armed (startTimer (workers s1 ! i)) \<and>
       promise s1 = promise s \<and>
       fire Node beh opts (Exit i) s1 = Some s2 \<and>
       (if retryCount s < length (retries opts)
        then promise s2 = promise s \<and> retryCount s2 = Suc (retryCount s) \<and>
             (\<exists>s3. fire Node beh opts (RetryTimer (length (retryTimers s))) s2 = Some s3 \<and>
                length (workers s3) = Suc (length (workers s)))
        else promise s2 =
               (if promise s = Pending then Rejected (rejection (errorInstance s) 1)
                else promise s)))"
proof -
  have spawn: "timeoutTimer (last (workers (createWorker opts s0))) = Armed T"
    using assms(1,2) by (simp add: createWorker_def newWorker_def truthy_def Let_def)
  define s1 where "s1 = upd i (\<lambda>w. on_timeout Node (w\<lparr>timeoutTimer := Fired\<rparr>)) s"
  have f: "fire Node beh opts (TimeoutTimer i) s = Some s1"
    using assms(3,6) by (simp add: s1_def)
  have p: "phase (workers s1 ! i) = Closing 1" and l: "i < length (workers s1)"
    and st: "\<not> armed (startTimer (workers s1 ! i))"
    and same: "promise s1 = promise s" "retryCount s1 = retryCount s"
      "retryTimers s1 = retryTimers s" "errorInstance s1 = errorInstance s"
      "length (workers s1) = length (workers s)"
    using assms(3,4,5)
    by (simp_all add: s1_def upd_fields upd_nth on_timeout_def terminate_def alive_def armed_simps)
  from node_failed_exit [OF l p, of beh opts] obtain s2 where
    e: "fire Node beh opts (Exit i) s1 = Some s2" and
    w: "length (workers s2) = length (workers s1)" and
    c: "if retryCount s1 < length (retries opts)
       then retryTimers s2 = retryTimers s1 @ [retries opts ! retryCount s1] \<and>
          retryCount s2 = Suc (retryCount s1) \<and> promise s2 = promise s1
       else retryTimers s2 = retryTimers s1 \<and> retryCount s2 = retryCount s1 \<and>
          promise s2 =
            (if promise s1 = Pending then Rejected (rejection (errorInstance s1) 1)
             else promise s1)"
    by auto
  have "if retryCount s < length (retries opts)
        then promise s2 = promise s \<and> retryCount s2 = Suc (retryCount s) \<and>
             (\<exists>s3. fire Node beh opts (RetryTimer (length (retryTimers s))) s2 = Some s3 \<and>
                length (workers s3) = Suc (length (workers s)))
        else promise s2 =
               (if promise s = Pending then Rejected (rejection (errorInstance s) 1)
                else promise s)"
  proof (cases "retryCount s < length (retries opts)")
    case True
    with c same have "length (retryTimers s) < length (retryTimers s2)" by simp
    from retry_spawns [OF this, of Node beh opts] obtain s3 where
      "fire Node beh opts (RetryTimer (length (retryTimers s))) s2 = Some s3"
      "length (workers s3) = Suc (length (workers s2))"
      by blast
    with True c w same show ?thesis by (auto simp del: fire.simps)
  next
    case False
    with c same show ?thesis by (auto simp del: fire.simps)
  qed
  with spawn f p st same(1) e show ?thesis by blast
qed

theorem node_timeout_heard_witness:
  "\<exists>s s1 s2 s3.
     run Node (\<lambda>_. Never :: int behaviour) (no_options\<lparr>timeout := Some 50, retriesWithIn := Some [10]\<rparr>)
       [Online 0] (invoke (no_options\<lparr>timeout := Some 50, retriesWithIn := Some [10]\<rparr>)) = Some s \<and>
     timeout (no_options\<lparr>timeout := Some 50, retriesWithIn := Some [10]\<rparr>) = Some 50 \<and>
     alive (workers s ! 0) \<and> online (workers s ! 0) \<and> timeoutTimer (workers s ! 0) = Armed 50 \<and>
     fire Node (\<lambda>_. Never :: int behaviour) (no_options\<lparr>timeout := Some 50, retriesWithIn := Some [10]\<rparr>)
       (TimeoutTimer 0) s = Some s1 \<and>
     phase (workers s1 ! 0) = Closing 1 \<and>
     fire Node (\<lambda>_. Never :: int behaviour) (no_options\<lparr>timeout := Some 50, retriesWithIn := Some [10]\<rparr>)
       (Exit 0) s1 = Some s2 \<and>
     promise s2 = Pending \<and> retryCount s2 = 1 \<and>
     fire Node (\<lambda>_. Never :: int behaviour) (no_options\<lparr>timeout := Some 50, retriesWithIn := Some [10]\<rparr>)
       (RetryTimer 0) s2 = Some s3 \<and>
     length (workers s3) = 2"
proof -
  let ?beh = "\<lambda>_::nat. Never :: int behaviour"
  let ?o = "no_options\<lparr>timeout := Some 50, retriesWithIn := Some [10]\<rparr>"
  have "\<not> Option.is_none (run Node ?beh ?o [Online 0] (invoke ?o))"
    by code_simp
  then obtain s where r: "run Node ?beh ?o [Online 0] (invoke ?o) = Some s"
    by (auto simp: Option.is_none_def simp del: fire.simps)
  have "map_option (\<lambda>s. (alive (workers s ! 0), online (workers s ! 0), timeoutTimer (workers s ! 0),
      retryCount s, length (retryTimers s), length (workers s), promise s))
      (run Node ?beh ?o [Online 0] (invoke ?o)) = Some (True, True, Armed 50, 0, 0, 1, Pending)"
    by code_simp
  with r have v: "alive (workers s ! 0)" "online (workers s ! 0)" "timeoutTimer (workers s ! 0) = Armed 50"
    "retryCount s = 0" "length (retryTimers s) = 0" "length (workers s) = 1" "promise s = Pending"
    by simp_all
  have t: "timeout ?o = Some 50" by simp
  have c: "retryCount s < length (retries ?o)"
    using v(4) by (simp add: retries_def)
  have l: "0 < length (workers s)" using v(6) by simp
  from node_timeout_heard [OF t _ l v(1,2,3), where beh = ?beh and ?s0.0 = s] c v r t show ?thesis
    by (auto simp del: fire.simps)
qed

subsection \<open>How long a run can be\<close>

lemma sum_list_nth_update:
  fixes f :: "'a \<Rightarrow> nat"
  shows "i < length xs \<Longrightarrow> sum_list (map f (xs[i := v])) + f (xs ! i) = sum_list (map f xs) + f v"
  by (induction xs arbitrary: i) (auto split: nat.splits)

lemma budget_upd_le:
  assumes "weight (f (workers s ! i)) \<le> weight (workers s ! i)"
  shows "budget opts (upd i f s) \<le> budget opts s"
proof (cases "i < length (workers s)")
  case True
  from sum_list_nth_update [OF True, of weight "f (workers s ! i)"] assms show ?thesis
    by (simp add: budget_def upd_def)
next
  case False
  then show ?thesis by (simp add: budget_def upd_def list_update_beyond)
qed

lemma budget_upd_less:
  assumes "i < length (workers s)" "weight (f (workers s ! i)) < weight (workers s ! i)"
  shows "budget opts (upd i f s) < budget opts s"
  using sum_list_nth_update [OF assms(1), of weight "f (workers s ! i)"] assms(2)
  by (simp add: budget_def upd_def)

lemma budget_exitHandler: "budget opts (exitHandler opts code s) \<le> budget opts s"
  by (auto simp: budget_def exitHandler_def reject_def Let_def)

lemma budget_fields:
  "budget opts (s\<lparr>errorInstance := e\<rparr>) = budget opts s"
  "budget opts (resolve x s) = budget opts s"
  "budget opts (reject v s) = budget opts s"
  "budget opts (node_on_error v s) = budget opts s"
  by (simp_all add: budget_def resolve_def reject_def node_on_error_def)

lemma budget_dispatchExit: "budget opts (dispatchExit opts i code s) \<le> budget opts s"
proof -
  have "budget opts (upd i (\<lambda>w. w\<lparr>onceExit := False\<rparr>) s) \<le> budget opts s"
    by (rule budget_upd_le) (simp add: weight_def alive_def)
  with budget_exitHandler [of opts code "upd i (\<lambda>w. w\<lparr>onceExit := False\<rparr>) s"]
  show ?thesis by (simp add: dispatchExit_def)
qed

lemma weight_on_message_timers: "weight (on_message_timers w) \<le> weight w"
  by (simp add: weight_def on_message_timers_def alive_def armed_simps)

lemma budget_web_on_message: "budget opts (web_on_message opts i d s) \<le> budget opts s"
proof -
  let ?s1 = "upd i on_message_timers s"
  let ?s2 = "upd i (\<lambda>w. w\<lparr>onceMessage := False\<rparr>) ?s1"
  have 1: "budget opts ?s1 \<le> budget opts s"
    by (rule budget_upd_le) (rule weight_on_message_timers)
  have "budget opts ?s2 \<le> budget opts ?s1"
    by (rule budget_upd_le) (simp add: weight_def alive_def)
  with 1 have 2: "budget opts ?s2 \<le> budget opts s" by simp
  show ?thesis
  proof (cases d)
    case (Success x)
    from budget_dispatchExit [of opts i 0 "resolve x ?s2"] 1 2 Success show ?thesis
      by (simp add: web_on_message_def Let_def budget_fields)
  next
    case (Failure e)
    from budget_dispatchExit [of opts i 1 "?s2\<lparr>errorInstance := Some e\<rparr>"] 1 2 Failure show ?thesis
      by (simp add: web_on_message_def Let_def budget_fields)
  qed
qed

lemma budget_web_on_error: "budget opts (web_on_error opts i s) \<le> budget opts s"
proof -
  let ?s1 = "upd i (\<lambda>w. w\<lparr>onceError := False\<rparr>) s"
  have 1: "budget opts ?s1 \<le> budget opts s"
    by (rule budget_upd_le) (simp add: weight_def alive_def)
  from budget_dispatchExit [of opts i 1 "?s1\<lparr>errorInstance := None\<rparr>"] 1 show ?thesis
    by (simp add: web_on_error_def budget_fields)
qed

lemma budget_node_on_message: "budget opts (node_on_message i x s) \<le> budget opts s"
  using budget_upd_le [of on_message_timers s i opts]
  by (simp add: node_on_message_def budget_fields weight_on_message_timers)

text \<open>The listeners leave the phase of the worker and the state of its thread as they are.\<close>

lemma exitHandler_workers: "workers (exitHandler opts code s) = workers s"
  by (simp add: exitHandler_def reject_def Let_def)

lemma listeners_worker:
  "i < length (workers s) \<Longrightarrow> length (workers (web_on_message opts i d s)) = length (workers s) \<and>
     phase (workers (web_on_message opts i d s) ! i) = phase (workers s ! i)"
  "i < length (workers s) \<Longrightarrow> length (workers (web_on_error opts i s)) = length (workers s) \<and>
     phase (workers (web_on_error opts i s) ! i) = phase (workers s ! i)"
  "i < length (workers s) \<Longrightarrow> length (workers (node_on_message i x s)) = length (workers s) \<and>
     phase (workers (node_on_message i x s) ! i) = phase (workers s ! i)"
  "length (workers (node_on_error v s)) = length (workers s) \<and>
     phase (workers (node_on_error v s) ! i) = phase (workers s ! i)"
  by (simp_all add: web_on_message_def web_on_error_def node_on_message_def node_on_error_def
      dispatchExit_def exitHandler_workers resolve_def on_message_timers_def Let_def
      upd_fields upd_nth split: response.splits)

lemma budget_end:
  assumes "i < length (workers s)" "budget opts s \<le> b" "alive (workers s ! i)"
    "p = Exited \<or> p = Closing c"
  shows "budget opts (upd i (\<lambda>w. w\<lparr>phase := p\<rparr>) s) < b"
proof -
  have "budget opts (upd i (\<lambda>w. w\<lparr>phase := p\<rparr>) s) < budget opts s"
    using assms(1)
  proof (rule budget_upd_less)
    from assms(3,4) show "weight ((workers s ! i)\<lparr>phase := p\<rparr>) < weight (workers s ! i)"
      by (auto simp: weight_def alive_def)
  qed
  with assms(2) show ?thesis by simp
qed

lemma budget_finish:
  assumes "i < length (workers s)" "phase (workers s ! i) = Running"
  shows "budget opts (finish var opts i oc s) < budget opts s"
proof -
  note e = budget_end [where opts = opts and b = "budget opts s" and i = i]
  from assms have a: "alive (workers s ! i)" by (simp add: alive_def)
  show ?thesis
  proof (cases var)
    case Node
    show ?thesis
    proof (cases oc)
      case (Returns x)
      from e [of "node_on_message i x s" "Closing 0" 0] assms listeners_worker(3) [OF assms(1), of x]
        budget_node_on_message [of opts i x s]
      show ?thesis unfolding finish_unfold Node Returns by (simp add: alive_def)
    next
      case ReturnsOpaque
      from e [of "node_on_error DataCloneError s" "Closing 1" 1] assms
        listeners_worker(4) [of DataCloneError s i]
      show ?thesis unfolding finish_unfold Node ReturnsOpaque by (simp add: alive_def budget_fields)
    next
      case (Throws v)
      from e [of "node_on_error v s" "Closing 1" 1] assms listeners_worker(4) [of v s i]
      show ?thesis unfolding finish_unfold Node Throws by (simp add: alive_def budget_fields)
    next
      case ThrowsOpaque
      from e [of "node_on_error (Value ''[inspected]'') s" "Closing 1" 1] assms
        listeners_worker(4) [of "Value ''[inspected]''" s i]
      show ?thesis unfolding finish_unfold Node ThrowsOpaque by (simp add: alive_def budget_fields)
    qed
  next
    case Web
    have m: "budget opts (upd i (\<lambda>w. w\<lparr>phase := Exited\<rparr>) (web_on_message opts i d s)) < budget opts s" for d
      using e [of "web_on_message opts i d s" Exited 0] assms listeners_worker(1) [OF assms(1), of opts d]
        budget_web_on_message [of opts i d s]
      by (simp add: alive_def)
    show ?thesis
    proof (cases oc)
      case (Returns x)
      with m show ?thesis unfolding finish_unfold Web by simp
    next
      case ReturnsOpaque
      with m show ?thesis unfolding finish_unfold Web by simp
    next
      case (Throws v)
      with m show ?thesis unfolding finish_unfold Web by simp
    next
      case ThrowsOpaque
      with e [of s Exited 0] assms(1) a show ?thesis unfolding finish_unfold Web by simp
    qed
  qed
qed

lemma budget_crash:
  assumes "i < length (workers s)" "alive (workers s ! i)"
  shows "budget opts (crash var opts i e s) < budget opts s"
proof (cases var)
  case Node
  from budget_end [where opts = opts and b = "budget opts s" and i = i and s = "node_on_error e s"
      and p = "Closing 1" and c = 1] assms listeners_worker(4) [of e s i]
  show ?thesis unfolding crash_def Node by (simp add: alive_def budget_fields)
next
  case Web
  from budget_end [where opts = opts and b = "budget opts s" and i = i and s = "web_on_error opts i s"
      and p = Exited and c = 0] assms listeners_worker(2) [OF assms(1), of opts]
    budget_web_on_error [of opts i s]
  show ?thesis unfolding crash_def Web by (simp add: alive_def)
qed

lemma weight_terminate: "weight (terminate var w) \<le> weight w"
  by (auto simp: weight_def terminate_def alive_def split: variant.splits)

lemma weight_newWorker: "weight (newWorker opts) \<le> 5"
  by (simp add: weight_def newWorker_fields)

lemma budget_fire:
  assumes "fire var beh opts ev s = Some s'"
  shows "budget opts s' < budget opts s"
proof (cases ev)
  case (Online i)
  with assms(1) have i: "i < length (workers s)" "alive (workers s ! i)" "\<not> online (workers s ! i)"
    and s': "s' = upd i (\<lambda>w. w\<lparr>online := True\<rparr>) s"
    by (auto split: if_splits)
  show ?thesis unfolding s' using i(1)
    by (rule budget_upd_less) (use i in \<open>simp add: weight_def alive_def\<close>)
next
  case (Finish i)
  with assms(1) obtain oc where "i < length (workers s)" "phase (workers s ! i) = Running"
    "s' = finish var opts i oc s"
    by (auto split: if_splits behaviour.splits)
  with budget_finish [of i s opts var oc] show ?thesis by simp
next
  case (Crash i)
  with assms(1) obtain e where "i < length (workers s)" "alive (workers s ! i)"
    "s' = crash var opts i e s"
    by (auto split: if_splits behaviour.splits)
  with budget_crash [of i s opts var e] show ?thesis by simp
next
  case (Exit i)
  with assms(1) obtain code where i: "i < length (workers s)" "phase (workers s ! i) = Closing code"
    and s': "s' = node_on_exit opts code (upd i (\<lambda>w. w\<lparr>phase := Exited\<rparr>) s)"
    by (auto split: if_splits phase.splits)
  have "budget opts (upd i (\<lambda>w. w\<lparr>phase := Exited\<rparr>) s) < budget opts s"
    using i(1) by (rule budget_upd_less) (use i in \<open>simp add: weight_def alive_def\<close>)
  with budget_exitHandler [of opts code "upd i (\<lambda>w. w\<lparr>phase := Exited\<rparr>) s"]
  show ?thesis unfolding s' node_on_exit_def by simp
next
  case (StartTimer i)
  with assms(1) obtain d where i: "i < length (workers s)" "startTimer (workers s ! i) = Armed d"
    and s': "s' = upd i (\<lambda>w. postMessage (w\<lparr>startTimer := Fired\<rparr>)) s"
    by (auto split: if_splits timer.splits)
  show ?thesis unfolding s' using i(1)
    by (rule budget_upd_less)
      (use i in \<open>auto simp: weight_def alive_def postMessage_def armed_simps\<close>)
next
  case (TimeoutTimer i)
  with assms(1) obtain d where i: "i < length (workers s)" "timeoutTimer (workers s ! i) = Armed d"
    and s': "s' = upd i (\<lambda>w. on_timeout var (w\<lparr>timeoutTimer := Fired\<rparr>)) s"
    by (auto split: if_splits timer.splits)
  show ?thesis unfolding s' using i(1)
    by (rule budget_upd_less)
      (use i in \<open>auto simp: weight_def alive_def on_timeout_def terminate_def armed_simps
         split: variant.splits\<close>)
next
  case Abort
  with assms(1) have a: "signal opts \<noteq> None" "\<not> aborted s"
    and s': "s' = dispatchAbort var s"
    by (auto split: if_splits)
  have "budget opts (fold (\<lambda>i. upd i (terminate var)) ls t) \<le> budget opts t" for ls and t :: "'a state"
  proof (induction ls arbitrary: t)
    case Nil
    show ?case by simp
  next
    case (Cons l ls)
    have "budget opts (upd l (terminate var) t) \<le> budget opts t"
      by (rule budget_upd_le) (rule weight_terminate)
    with Cons [of "upd l (terminate var) t"] show ?case by simp
  qed
  from this [of "abortListeners s" "s\<lparr>aborted := True, abortListeners := []\<rparr>"] a
  show ?thesis unfolding s' dispatchAbort_def by (simp add: budget_def)
next
  case (RetryTimer k)
  with assms(1) have k: "k < length (retryTimers s)"
    and s': "s' = tryExecution opts (s\<lparr>retryTimers := take k (retryTimers s) @ drop (Suc k) (retryTimers s)\<rparr>)"
    by (auto split: if_splits)
  from k weight_newWorker [of opts] show ?thesis unfolding s'
    by (simp add: budget_def tryExecution_def createWorker_def)
qed

lemma budget_run:
  assumes "run var beh opts evs s = Some s'"
  shows "length evs + budget opts s' \<le> budget opts s"
  using assms
proof (induction evs arbitrary: s)
  case Nil
  then show ?case by simp
next
  case (Cons ev evs)
  from Cons.prems(1) obtain s1 where f: "fire var beh opts ev s = Some s1"
    and r: "run var beh opts evs s1 = Some s'"
    by (auto split: option.splits)
  from Cons.IH [OF r] budget_fire [OF f] show ?case by simp
qed

lemma budget_invoke: "budget opts (invoke opts) \<le> 7 * length (retries opts) + 6"
  using weight_newWorker [of opts]
  by (simp add: budget_def invoke_def tryExecution_def createWorker_def)

subsection \<open>Settling the promise\<close>

text \<open>In an idle state no event at all can be delivered, so the state never changes.\<close>

lemma idle_fire:
  assumes "idle var beh opts s"
  shows "fire var beh opts ev s = None"
proof -
  have c: "ev \<in> set (candidates s) \<Longrightarrow> fire var beh opts ev s = None"
    using assms by (simp add: idle_def list_all_iff Option.is_none_def del: fire.simps)
  show ?thesis
  proof (cases ev)
    case (Online i)
    then show ?thesis using c by (cases "i < length (workers s)") (auto simp: candidates_def)
  next
    case (Finish i)
    then show ?thesis using c by (cases "i < length (workers s)") (auto simp: candidates_def)
  next
    case (Crash i)
    then show ?thesis using c by (cases "i < length (workers s)") (auto simp: candidates_def)
  next
    case (Exit i)
    then show ?thesis using c by (cases "i < length (workers s)") (auto simp: candidates_def)
  next
    case (StartTimer i)
    then show ?thesis using c by (cases "i < length (workers s)") (auto simp: candidates_def)
  next
    case (TimeoutTimer i)
    then show ?thesis using c by (cases "i < length (workers s)") (auto simp: candidates_def)
  next
    case Abort
    then show ?thesis using c by (simp add: candidates_def del: fire.simps)
  next
    case (RetryTimer k)
    then show ?thesis using c by (cases "k < length (retryTimers s)") (auto simp: candidates_def)
  qed
qed

lemma idle_run:
  assumes "idle var beh opts s" "run var beh opts evs s = Some s'"
  shows "evs = [] \<and> s' = s"
  using assms idle_fire [OF assms(1)]
  by (cases evs) (simp_all del: fire.simps)

text \<open>A settled promise stays as it is.\<close>

lemma settled_fire:
  assumes "promise s \<noteq> Pending" "fire var beh opts ev s = Some s'"
  shows "promise s' = promise s"
  using assms
  by (cases ev) (auto simp: quiet_defs split: step_splits)

lemma settled_run:
  assumes "promise s \<noteq> Pending" and "run var beh opts evs s = Some s'"
  shows "promise s' = promise s"
  using assms
proof (induction evs arbitrary: s)
  case Nil
  then show ?case by simp
next
  case (Cons ev evs)
  from Cons.prems(2) obtain s1 where f: "fire var beh opts ev s = Some s1"
    and r: "run var beh opts evs s1 = Some s'"
    by (auto split: option.splits)
  from settled_fire [OF Cons.prems(1) f] Cons.IH [OF _ r] Cons.prems(1) show ?case by simp
qed

text \<open>A worker that waits for its arguments has its start timer armed.\<close>

lemma waiting_fire:
  assumes "\<forall>j < length (workers s). phase (workers s ! j) = Waiting \<longrightarrow> armed (startTimer (workers s ! j))"
    "fire var beh opts ev s = Some s'"
  shows "\<forall>j < length (workers s'). phase (workers s' ! j) = Waiting \<longrightarrow> armed (startTimer (workers s' ! j))"
  using assms
  by (cases ev) (auto simp: quiet_defs newWorker_fields nth_append split: step_splits)

text \<open>No Web Worker has an exit on its way.\<close>

lemma web_phase_fire:
  assumes "\<forall>j < length (workers s). \<forall>c. phase (workers s ! j) \<noteq> Closing c"
    "fire Web beh opts ev s = Some s'"
  shows "\<forall>j < length (workers s'). \<forall>c. phase (workers s' ! j) \<noteq> Closing c"
  using assms
  by (cases ev) (auto simp: quiet_defs newWorker_fields nth_append split: step_splits)

text \<open>
  While the promise is pending, and unless an event was silent, the pool will still hear
  from a worker, or a retry timer is pending.
\<close>

lemma flight_fire:
  assumes "\<forall>j < length (workers s). alive (workers s ! j) \<longrightarrow>
      onceMessage (workers s ! j) \<and> onceError (workers s ! j) \<and> onceExit (workers s ! j)"
    "fire var beh opts ev s = Some s'" "\<not> silent var beh ev s"
    "j < length (workers s)" "inflight (workers s ! j)"
  shows "promise s' \<noteq> Pending \<or> retryTimers s' \<noteq> [] \<or>
    (j < length (workers s') \<and> inflight (workers s' ! j))"
  using assms
  by (cases ev)
    (auto simp: quiet_defs inflight_def silent_def unheard_def list_ex_iff nth_append
       split: step_splits)

lemma timers_fire:
  assumes "retryTimers s \<noteq> []" "fire var beh opts ev s = Some s'"
  shows "promise s' \<noteq> Pending \<or> retryTimers s' \<noteq> [] \<or>
    (\<exists>j < length (workers s'). inflight (workers s' ! j))"
proof (cases ev)
  case (RetryTimer k)
  with assms(2) have "length (workers s') = Suc (length (workers s))"
    "inflight (workers s' ! length (workers s))"
    by (auto simp: tryExecution_def createWorker_def inflight_def alive_def newWorker_fields
        split: if_splits)
  then show ?thesis by auto
qed (use assms in \<open>auto simp: quiet_defs split: step_splits\<close>)


lemma flight_run:
  assumes "run var beh opts evs s = Some s'" "audible var beh opts evs s"
    "\<forall>j < length (workers s). alive (workers s ! j) \<longrightarrow>
      onceMessage (workers s ! j) \<and> onceError (workers s ! j) \<and> onceExit (workers s ! j)"
    "promise s = Pending \<longrightarrow>
      retryTimers s \<noteq> [] \<or> (\<exists>j < length (workers s). inflight (workers s ! j))"
  shows "promise s' = Pending \<longrightarrow>
      retryTimers s' \<noteq> [] \<or> (\<exists>j < length (workers s'). inflight (workers s' ! j))"
  using assms
proof (induction evs arbitrary: s)
  case Nil
  then show ?case by simp
next
  case (Cons ev evs)
  from Cons.prems(1) obtain s1 where f: "fire var beh opts ev s = Some s1"
    and r: "run var beh opts evs s1 = Some s'"
    by (auto split: option.splits)
  from Cons.prems(2) f have q: "\<not> silent var beh ev s" and a: "audible var beh opts evs s1"
    by (simp_all del: fire.simps)
  note l = listening_fire [OF Cons.prems(3) f]
  have k: "promise s1 = Pending \<longrightarrow>
      retryTimers s1 \<noteq> [] \<or> (\<exists>j < length (workers s1). inflight (workers s1 ! j))"
  proof
    assume p1: "promise s1 = Pending"
    have p: "promise s = Pending"
    proof (rule ccontr)
      assume "promise s \<noteq> Pending"
      from settled_fire [OF this f] this p1 show False by simp
    qed
    with Cons.prems(4) consider "retryTimers s \<noteq> []"
      | j where "j < length (workers s)" "inflight (workers s ! j)"
      by blast
    then show "retryTimers s1 \<noteq> [] \<or> (\<exists>j < length (workers s1). inflight (workers s1 ! j))"
    proof cases
      case 1
      from timers_fire [OF 1 f] p1 show ?thesis by simp
    next
      case 2
      from flight_fire [OF Cons.prems(3) f q 2] p1 show ?thesis by auto
    qed
  qed
  from Cons.IH [OF r a l k] show ?case .
qed

lemma waiting_run:
  assumes "run var beh opts evs s = Some s'"
    "\<forall>j < length (workers s). phase (workers s ! j) = Waiting \<longrightarrow> armed (startTimer (workers s ! j))"
  shows "\<forall>j < length (workers s'). phase (workers s' ! j) = Waiting \<longrightarrow> armed (startTimer (workers s' ! j))"
  using assms
proof (induction evs arbitrary: s)
  case Nil
  then show ?case by simp
next
  case (Cons ev evs)
  from Cons.prems(1) obtain s1 where f: "fire var beh opts ev s = Some s1"
    and r: "run var beh opts evs s1 = Some s'"
    by (auto split: option.splits)
  from Cons.IH [OF r waiting_fire [OF Cons.prems(2) f]] show ?case .
qed

lemma web_phase_run:
  assumes "run Web beh opts evs s = Some s'"
    "\<forall>j < length (workers s). \<forall>c. phase (workers s ! j) \<noteq> Closing c"
  shows "\<forall>j < length (workers s'). \<forall>c. phase (workers s' ! j) \<noteq> Closing c"
  using assms
proof (induction evs arbitrary: s)
  case Nil
  then show ?case by simp
next
  case (Cons ev evs)
  from Cons.prems(1) obtain s1 where f: "fire Web beh opts ev s = Some s1"
    and r: "run Web beh opts evs s1 = Some s'"
    by (auto split: option.splits)
  from Cons.IH [OF r web_phase_fire [OF Cons.prems(2) f]] show ?case .
qed

lemma invoke_shape:
  "length (workers (invoke opts)) = 1" "workers (invoke opts) ! 0 = newWorker opts"
  "retryCount (invoke opts) = 0" "promise (invoke opts) = Pending" "retryTimers (invoke opts) = []"
  "errorInstance (invoke opts) = None"
  by (simp_all add: invoke_def tryExecution_def createWorker_def)

text \<open>In an idle state with a pending promise, a worker in flight is stuck for ever.\<close>

lemma idle_stuck:
  assumes "idle var beh opts s" "j < length (workers s)" "inflight (workers s ! j)"
    "phase (workers s ! j) = Waiting \<longrightarrow> armed (startTimer (workers s ! j))"
    "var = Web \<longrightarrow> (\<forall>c. phase (workers s ! j) \<noteq> Closing c)"
  shows "phase (workers s ! j) = Running \<and> beh j = Never \<and> \<not> armed (timeoutTimer (workers s ! j))"
proof -
  note n = idle_fire [OF assms(1)]
  from n [of "Exit j"] assms(2,5) have nc: "\<forall>c. phase (workers s ! j) \<noteq> Closing c"
    by (cases var) (auto split: phase.splits)
  with assms(3) have a: "alive (workers s ! j)"
    by (auto simp: inflight_def split: phase.splits)
  from n [of "StartTimer j"] assms(2) have "\<not> armed (startTimer (workers s ! j))"
    by (auto simp: armed_iff split: timer.splits)
  with assms(4) a have r: "phase (workers s ! j) = Running"
    by (auto simp: alive_def)
  from n [of "Online j"] assms(2) a have o: "online (workers s ! j)"
    by (auto split: if_splits)
  from n [of "Finish j"] n [of "Crash j"] assms(2) a r o have "beh j = Never"
    by (cases "beh j") (auto split: if_splits)
  moreover from n [of "TimeoutTimer j"] assms(2) have "\<not> armed (timeoutTimer (workers s ! j))"
    by (auto simp: armed_iff split: timer.splits)
  ultimately show ?thesis using r by simp
qed

text \<open>
  C3, as the claim states it, fails: a computation that never completes, called without
  options (no timeout, no signal), leaves the promise pending in a state in which
  nothing can happen any more, as soon as its thread is up.
\<close>

theorem never_completes_never_settles:
  "map_option (\<lambda>s. (promise s, idle Node (\<lambda>_. Never :: int behaviour) no_options s))
     (run Node (\<lambda>_. Never :: int behaviour) no_options [Online 0] (invoke no_options)) =
   Some (Pending, True)"
  by code_simp

text \<open>
  C3, amended. The promise settles at most once: once it is resolved with a value or
  rejected with an error, no event that follows changes it, so it is never both. Every
  call comes to rest: with \<open>k\<close> retries configured, no run of it has more than \<open>7 * k + 6\<close>
  events. And the promise is then not left unsettled, unless a computation never
  completes: when nothing can happen any more and the promise is still pending, some
  worker is running a computation that never completes, with no timeout left to stop
  it. This last part is stated for the calls in which the pool hears of every worker
  that ends, that is, in which no timeout and no abort terminates a Web Worker or a Node
  thread that is still starting, and no web worker throws a value that cannot be cloned.
\<close>

theorem settles_once_unless_stuck:
  assumes "run var beh opts evs (invoke opts) = Some (s :: 'v state)"
  shows "length evs \<le> 7 * length (retries opts) + 6 \<and>
    (promise s \<noteq> Pending \<longrightarrow>
      (\<forall>evs' s'. run var beh opts evs' s = Some s' \<longrightarrow> promise s' = promise s)) \<and>
    (audible var beh opts evs (invoke opts) \<and> idle var beh opts s \<and> promise s = Pending \<longrightarrow>
      (\<exists>i < length (workers s). phase (workers s ! i) = Running \<and> beh i = Never \<and>
         \<not> armed (timeoutTimer (workers s ! i))))"
proof (intro conjI impI allI)
  have "budget opts (invoke opts :: 'v state) \<le> 7 * length (retries opts) + 6"
    by (rule budget_invoke)
  with budget_run [OF assms] show "length evs \<le> 7 * length (retries opts) + 6"
    by simp
next
  fix evs' s'
  assume "promise s \<noteq> Pending" "run var beh opts evs' s = Some s'"
  then show "promise s' = promise s" by (rule settled_run)
next
  assume h: "audible var beh opts evs (invoke opts) \<and> idle var beh opts s \<and> promise s = Pending"
  let ?s0 = "invoke opts :: 'v state"
  have f0: "promise ?s0 = Pending \<longrightarrow>
      retryTimers ?s0 \<noteq> [] \<or> (\<exists>j < length (workers ?s0). inflight (workers ?s0 ! j))"
    by (simp add: invoke_shape inflight_def alive_def newWorker_fields)
  from flight_run [OF assms _ listening_invoke f0] h
  have "retryTimers s \<noteq> [] \<or> (\<exists>j < length (workers s). inflight (workers s ! j))"
    by simp
  moreover from idle_fire [of var beh opts s "RetryTimer 0"] h have "retryTimers s = []"
    by (simp split: if_splits)
  ultimately obtain j where j: "j < length (workers s)" "inflight (workers s ! j)"
    by blast
  have w0: "\<forall>j < length (workers ?s0). phase (workers ?s0 ! j) = Waiting \<longrightarrow>
      armed (startTimer (workers ?s0 ! j))"
    by (simp add: invoke_shape newWorker_fields)
  from waiting_run [OF assms w0] j
  have w: "phase (workers s ! j) = Waiting \<longrightarrow> armed (startTimer (workers s ! j))"
    by simp
  have c: "var = Web \<longrightarrow> (\<forall>c. phase (workers s ! j) \<noteq> Closing c)"
  proof
    assume v: "var = Web"
    have "\<forall>j < length (workers ?s0). \<forall>c. phase (workers ?s0 ! j) \<noteq> Closing c"
      by (simp add: invoke_shape newWorker_fields)
    from web_phase_run [OF assms [unfolded v] this] j
    show "\<forall>c. phase (workers s ! j) \<noteq> Closing c" by simp
  qed
  from idle_stuck [OF _ j w c] h j(1)
  show "\<exists>i < length (workers s). phase (workers s ! i) = Running \<and> beh i = Never \<and>
         \<not> armed (timeoutTimer (workers s ! i))"
    by blast
qed

theorem settles_once_unless_stuck_witness:
  "\<exists>s s' t.
     run Node (\<lambda>_. Completes (Returns (5::int))) (no_options\<lparr>signal := Some False\<rparr>) [Online 0, Finish 0]
       (invoke (no_options\<lparr>signal := Some False\<rparr>)) = Some s \<and>
     promise s = Resolved 5 \<and>
     run Node (\<lambda>_. Completes (Returns (5::int))) (no_options\<lparr>signal := Some False\<rparr>) [Abort, Exit 0] s = Some s' \<and>
     promise s' = Resolved 5 \<and>
     run Node (\<lambda>_. Never :: int behaviour) (no_options\<lparr>timeout := Some 50\<rparr>) [Online 0]
       (invoke (no_options\<lparr>timeout := Some 50\<rparr>)) = Some t \<and>
     audible Node (\<lambda>_. Never :: int behaviour) (no_options\<lparr>timeout := Some 50\<rparr>) [Online 0]
       (invoke (no_options\<lparr>timeout := Some 50\<rparr>)) \<and>
     promise t = Pending \<and>
     \<not> idle Node (\<lambda>_. Never :: int behaviour) (no_options\<lparr>timeout := Some 50\<rparr>) t"
proof -
  let ?beh = "\<lambda>_::nat. Completes (Returns (5::int))"
  let ?o = "no_options\<lparr>signal := Some False\<rparr>"
  let ?nev = "\<lambda>_::nat. Never :: int behaviour"
  let ?p = "no_options\<lparr>timeout := Some 50\<rparr>"
  have "\<not> Option.is_none (run Node ?beh ?o ([Online 0, Finish 0] @ [Abort, Exit 0]) (invoke ?o))"
    by code_simp
  then obtain s s' where a: "run Node ?beh ?o [Online 0, Finish 0] (invoke ?o) = Some s"
    and b: "run Node ?beh ?o [Abort, Exit 0] s = Some s'"
    unfolding run_append by (auto simp: Option.is_none_def simp del: run.simps split: option.splits)
  have "map_option promise (run Node ?beh ?o [Online 0, Finish 0] (invoke ?o)) = Some (Resolved 5)"
    by code_simp
  with a have p: "promise s = Resolved 5" by simp
  have "\<not> Option.is_none (run Node ?nev ?p [Online 0] (invoke ?p))"
    by code_simp
  then obtain t where c: "run Node ?nev ?p [Online 0] (invoke ?p) = Some t"
    by (auto simp: Option.is_none_def simp del: run.simps)
  have d: "audible Node ?nev ?p [Online 0] (invoke ?p)"
    by code_simp
  have "map_option (\<lambda>t. (promise t, idle Node ?nev ?p t,
      phase (workers t ! 0) = Running \<and> armed (timeoutTimer (workers t ! 0))))
      (run Node ?nev ?p [Online 0] (invoke ?p)) = Some (Pending, False, True)"
    by code_simp
  with c have e: "promise t = Pending" "\<not> idle Node ?nev ?p t" by simp_all
  from settles_once_unless_stuck [OF a] p b have "promise s' = Resolved 5"
    by (auto simp del: run.simps)
  moreover note settles_once_unless_stuck [OF c]
  ultimately show ?thesis using a b c d e p by blast
qed

subsection \<open>A computation that fails in every attempt\<close>
















end
